theory Spec2Isabelle
  imports Main
begin

section \<open>Strings\<close>

text \<open>
  A string is a list of code units; the model covers the code units below 256 (Latin-1),
  one \<^typ>\<open>char\<close> each, so that \<^const>\<open>length\<close> is the \<^verbatim>\<open>length\<close> of the source.
  White space (\<^verbatim>\<open>\s\<close> in an expression, and what \<^verbatim>\<open>trim\<close> removes) is, in that range,
  tab, line feed, vertical tab, form feed, carriage return, space and no-break space.
\<close>

definition js_space :: "char \<Rightarrow> bool" where
  "js_space c = (c \<in> set [CHR 0x09, CHR 0x0A, CHR 0x0B, CHR 0x0C, CHR 0x0D, CHR 0x20, CHR 0xA0])"

definition ascii_upper :: "char \<Rightarrow> bool" where
  "ascii_upper c = (c \<in> set ''ABCDEFGHIJKLMNOPQRSTUVWXYZ'')"

definition ascii_lower :: "char \<Rightarrow> bool" where
  "ascii_lower c = (c \<in> set ''abcdefghijklmnopqrstuvwxyz'')"

definition ascii_digit :: "char \<Rightarrow> bool" where
  "ascii_digit c = (c \<in> set ''0123456789'')"

text \<open>The letters of the range, each upper case with its lower case.\<close>

definition case_pairs :: "(char \<times> char) list" where
  "case_pairs =
     [(CHR ''A'', CHR ''a''), (CHR ''B'', CHR ''b''), (CHR ''C'', CHR ''c''), (CHR ''D'', CHR ''d''),
      (CHR ''E'', CHR ''e''), (CHR ''F'', CHR ''f''), (CHR ''G'', CHR ''g''), (CHR ''H'', CHR ''h''),
      (CHR ''I'', CHR ''i''), (CHR ''J'', CHR ''j''), (CHR ''K'', CHR ''k''), (CHR ''L'', CHR ''l''),
      (CHR ''M'', CHR ''m''), (CHR ''N'', CHR ''n''), (CHR ''O'', CHR ''o''), (CHR ''P'', CHR ''p''),
      (CHR ''Q'', CHR ''q''), (CHR ''R'', CHR ''r''), (CHR ''S'', CHR ''s''), (CHR ''T'', CHR ''t''),
      (CHR ''U'', CHR ''u''), (CHR ''V'', CHR ''v''), (CHR ''W'', CHR ''w''), (CHR ''X'', CHR ''x''),
      (CHR ''Y'', CHR ''y''), (CHR ''Z'', CHR ''z''), (CHR 0xC0, CHR 0xE0), (CHR 0xC1, CHR 0xE1),
      (CHR 0xC2, CHR 0xE2), (CHR 0xC3, CHR 0xE3), (CHR 0xC4, CHR 0xE4), (CHR 0xC5, CHR 0xE5),
      (CHR 0xC6, CHR 0xE6), (CHR 0xC7, CHR 0xE7), (CHR 0xC8, CHR 0xE8), (CHR 0xC9, CHR 0xE9),
      (CHR 0xCA, CHR 0xEA), (CHR 0xCB, CHR 0xEB), (CHR 0xCC, CHR 0xEC), (CHR 0xCD, CHR 0xED),
      (CHR 0xCE, CHR 0xEE), (CHR 0xCF, CHR 0xEF), (CHR 0xD0, CHR 0xF0), (CHR 0xD1, CHR 0xF1),
      (CHR 0xD2, CHR 0xF2), (CHR 0xD3, CHR 0xF3), (CHR 0xD4, CHR 0xF4), (CHR 0xD5, CHR 0xF5),
      (CHR 0xD6, CHR 0xF6), (CHR 0xD8, CHR 0xF8), (CHR 0xD9, CHR 0xF9), (CHR 0xDA, CHR 0xFA),
      (CHR 0xDB, CHR 0xFB), (CHR 0xDC, CHR 0xFC), (CHR 0xDD, CHR 0xFD), (CHR 0xDE, CHR 0xFE)]"

definition toLowerChar :: "char \<Rightarrow> char" where
  "toLowerChar c = (case map_of case_pairs c of Some l \<Rightarrow> l | None \<Rightarrow> c)"

definition toLowerCase :: "string \<Rightarrow> string" where
  "toLowerCase s = map toLowerChar s"

text \<open>The canonical form of a code unit under the flag \<^verbatim>\<open>i\<close>: its upper case.\<close>

definition canon :: "char \<Rightarrow> char" where
  "canon c = (case map_of (map (\<lambda>(u, l). (l, u)) case_pairs) c of Some u \<Rightarrow> u | None \<Rightarrow> c)"

definition trim :: "string \<Rightarrow> string" where
  "trim s = rev (dropWhile js_space (rev (dropWhile js_space s)))"

text \<open>\<^verbatim>\<open>s.includes(sub)\<close>: \<^verbatim>\<open>sub\<close> occurs in \<^verbatim>\<open>s\<close> as a contiguous piece.\<close>

fun str_includes :: "string \<Rightarrow> string \<Rightarrow> bool" where
  "str_includes [] sub = (sub = [])"
| "str_includes (x # xs) sub = (take (length sub) (x # xs) = sub \<or> str_includes xs sub)"

text \<open>\<^verbatim>\<open>s.replace(pat, rep)\<close> with a string pattern: the first occurrence only.\<close>

fun replace_first :: "string \<Rightarrow> string \<Rightarrow> string \<Rightarrow> string" where
  "replace_first pat rep [] = (if pat = [] then rep else [])"
| "replace_first pat rep (x # xs) =
     (if take (length pat) (x # xs) = pat then rep @ drop (length pat) (x # xs)
      else x # replace_first pat rep xs)"

text \<open>\<^verbatim>\<open>s.split(sep)\<close> for a separator of one code unit.\<close>

fun split_on :: "char \<Rightarrow> string \<Rightarrow> string list" where
  "split_on sep [] = [[]]"
| "split_on sep (x # xs) =
     (if x = sep then [] # split_on sep xs
      else (case split_on sep xs of [] \<Rightarrow> [[x]] | y # ys \<Rightarrow> (x # y) # ys))"

section \<open>Regular expressions\<close>

text \<open>
  The expressions of the source are terms of \<open>re\<close>, run by a backtracking matcher with the
  priorities of the language: the left alternative first, a greedy star the longest
  repetition first, a lazy star the shortest first. \<open>Grp n\<close> is the capture group
  number \<open>n\<close>, \<open>Ahead\<close> the lookahead \<^verbatim>\<open>(?=...)\<close>, \<open>EndOfInput\<close> the anchor \<^verbatim>\<open>$\<close> without
  the flag \<^verbatim>\<open>m\<close>. The flags \<^verbatim>\<open>s\<close> and \<^verbatim>\<open>i\<close> are in the symbols: a dot under \<^verbatim>\<open>s\<close> is
  \<open>any_chr\<close>, a literal under \<^verbatim>\<open>i\<close> is \<open>chr_i\<close>, a class under \<^verbatim>\<open>i\<close> is \<open>cls_i\<close>. Under
  \<^verbatim>\<open>i\<close> two code units match when their canonical forms are equal, that is when one is
  a case variant of the other.
\<close>

datatype re =
    Sym "char \<Rightarrow> bool"
  | Eps
  | Seq re re
  | Alt re re
  | Star re
  | Lazy re
  | Grp nat re
  | Ahead re
  | EndOfInput

type_synonym caps = "nat \<rightharpoonup> string"

text \<open>
  \<open>run r k s c\<close> matches \<open>r\<close> at the front of \<open>s\<close> with the captures \<open>c\<close> and hands what is
  left to the continuation \<open>k\<close>; \<open>None\<close> is failure, after which the caller tries its
  next choice. An iteration of a star that consumes nothing is rejected, as in the
  language.
\<close>

function run :: "re \<Rightarrow> (string \<Rightarrow> caps \<Rightarrow> (string \<times> caps) option) \<Rightarrow> string \<Rightarrow> caps
                  \<Rightarrow> (string \<times> caps) option" where
  "run (Sym p) k s c = (case s of [] \<Rightarrow> None | x # xs \<Rightarrow> if p x then k xs c else None)"
| "run Eps k s c = k s c"
| "run (Seq a b) k s c = run a (\<lambda>s' c'. run b k s' c') s c"
| "run (Alt a b) k s c = (case run a k s c of Some r \<Rightarrow> Some r | None \<Rightarrow> run b k s c)"
| "run (Star a) k s c =
     (case run a (\<lambda>s' c'. if length s' < length s then run (Star a) k s' c' else None) s c of
        Some r \<Rightarrow> Some r
      | None \<Rightarrow> k s c)"
| "run (Lazy a) k s c =
     (case k s c of
        Some r \<Rightarrow> Some r
      | None \<Rightarrow> run a (\<lambda>s' c'. if length s' < length s then run (Lazy a) k s' c' else None) s c)"
| "run (Grp n a) k s c = run a (\<lambda>s' c'. k s' (c'(n \<mapsto> take (length s - length s') s))) s c"
| "run (Ahead a) k s c =
     (case run a (\<lambda>s' c'. Some (s', c')) s c of None \<Rightarrow> None | Some (s', c') \<Rightarrow> k s c')"
| "run EndOfInput k s c = (if s = [] then k s c else None)"
  by pat_completeness auto
termination
  by (relation "measures [\<lambda>(r, k, s, c). size r, \<lambda>(r, k, s, c). length s]") auto

definition chr :: "char \<Rightarrow> re" where
  "chr c = Sym (\<lambda>x. x = c)"

definition chr_i :: "char \<Rightarrow> re" where
  "chr_i c = Sym (\<lambda>x. x = canon c \<or> x = toLowerChar (canon c))"

definition not_chr :: "char \<Rightarrow> re" where
  "not_chr c = Sym (\<lambda>x. x \<noteq> c)"

definition any_chr :: re where
  "any_chr = Sym (\<lambda>x. True)"

definition one_of :: "string \<Rightarrow> re" where
  "one_of cs = Sym (\<lambda>x. x \<in> set cs)"

text \<open>A class under the flag \<^verbatim>\<open>i\<close> holds a code unit when it holds one of its case variants.\<close>

definition cls_i :: "(char \<Rightarrow> bool) \<Rightarrow> re" where
  "cls_i p = Sym (\<lambda>x. p x \<or> p (canon x) \<or> p (toLowerChar x))"

definition seqs :: "re list \<Rightarrow> re" where
  "seqs rs = foldr Seq rs Eps"

definition alts :: "re \<Rightarrow> re list \<Rightarrow> re" where
  "alts r rs = foldl Alt r rs"

definition lit :: "string \<Rightarrow> re" where
  "lit s = seqs (map chr s)"

definition lit_i :: "string \<Rightarrow> re" where
  "lit_i s = seqs (map chr_i s)"

definition Plus :: "re \<Rightarrow> re" where
  "Plus r = Seq r (Star r)"

definition Opt :: "re \<Rightarrow> re" where
  "Opt r = Alt r Eps"

text \<open>One attempt at the front of \<open>s\<close>: the length of the match and the captures.\<close>

definition exec_at :: "re \<Rightarrow> string \<Rightarrow> (nat \<times> caps) option" where
  "exec_at r s =
     (case run r (\<lambda>s' c'. Some (s', c')) s Map.empty of
        None \<Rightarrow> None
      | Some (s', c) \<Rightarrow> Some (length s - length s', c))"

text \<open>The leftmost match: its offset from where the search started, its length, its captures.\<close>

fun search :: "re \<Rightarrow> nat \<Rightarrow> string \<Rightarrow> (nat \<times> nat \<times> caps) option" where
  "search r i [] = (case exec_at r [] of None \<Rightarrow> None | Some (n, c) \<Rightarrow> Some (i, n, c))"
| "search r i (x # xs) =
     (case exec_at r (x # xs) of
        None \<Rightarrow> search r (Suc i) xs
      | Some (n, c) \<Rightarrow> Some (i, n, c))"

record rmatch =
  whole :: string
  groups :: caps

text \<open>\<^verbatim>\<open>s.match(r)\<close> for an expression without the flag \<^verbatim>\<open>g\<close>.\<close>

definition js_match :: "re \<Rightarrow> string \<Rightarrow> rmatch option" where
  "js_match r s =
     (case search r 0 s of
        None \<Rightarrow> None
      | Some (i, n, c) \<Rightarrow> Some \<lparr>whole = take n (drop i s), groups = c\<rparr>)"

text \<open>
  An expression with the flag \<^verbatim>\<open>g\<close> cuts the string into the text between the matches and
  the matches, each search starting where the last match ended (one code unit further
  after an empty match).
\<close>

datatype piece = Gap string | Hit rmatch

function scan :: "re \<Rightarrow> string \<Rightarrow> piece list" where
  "scan r s =
     (case search r 0 s of
        None \<Rightarrow> [Gap s]
      | Some (i, n, c) \<Rightarrow>
          Gap (take i s) # Hit \<lparr>whole = take n (drop i s), groups = c\<rparr> #
          (if n = 0 then (case drop i s of [] \<Rightarrow> [] | x # xs \<Rightarrow> Gap [x] # scan r xs)
           else if i + n \<le> length s then scan r (drop (i + n) s)
           else []))"
  by pat_completeness auto
termination
proof (relation "measure (\<lambda>(r, s). length s)")
  show "wf (measure (\<lambda>(r, s). length s))" by simp
next
  fix r :: re and s :: string and x2 i y n c x21 x22
  assume "drop i s = x21 # x22"
  then have "length (drop i s) = Suc (length x22)" by simp
  then show "((r, x22), (r, s)) \<in> measure (\<lambda>(r, s). length s)" by simp
next
  fix r :: re and s :: string and x2 i y n c
  assume "n \<noteq> 0" "i + n \<le> length s"
  then show "((r, drop (i + n) s), (r, s)) \<in> measure (\<lambda>(r, s). length s)" by simp
qed

declare scan.simps [simp del]

text \<open>\<^verbatim>\<open>s.matchAll(r)\<close> and \<^verbatim>\<open>s.replace(r, rep)\<close> for an expression with the flag \<^verbatim>\<open>g\<close>.\<close>

fun hits :: "piece list \<Rightarrow> rmatch list" where
  "hits [] = []"
| "hits (Gap g # ps) = hits ps"
| "hits (Hit h # ps) = h # hits ps"

definition matchAll :: "re \<Rightarrow> string \<Rightarrow> rmatch list" where
  "matchAll r s = hits (scan r s)"

fun fill :: "string \<Rightarrow> piece list \<Rightarrow> string" where
  "fill rep [] = []"
| "fill rep (Gap g # ps) = g @ fill rep ps"
| "fill rep (Hit h # ps) = rep @ fill rep ps"

definition replaceAll :: "re \<Rightarrow> string \<Rightarrow> string \<Rightarrow> string" where
  "replaceAll r rep s = fill rep (scan r s)"

text \<open>
  The text of capture group \<open>n\<close> of a match. Every use below reads a group that the
  expression cannot match without, so the group is set.
\<close>

definition group_text :: "rmatch \<Rightarrow> nat \<Rightarrow> string" where
  "group_text mt n = (case groups mt n of None \<Rightarrow> [] | Some g \<Rightarrow> g)"

section \<open>Data model (types.ts)\<close>

datatype CloudProvider = AWS | AZURE | GCP

fun provider_value :: "CloudProvider \<Rightarrow> string" where
  "provider_value AWS = ''aws''"
| "provider_value AZURE = ''azure''"
| "provider_value GCP = ''gcp''"

datatype GuideType = USER_GUIDE | API_REFERENCE | DEVELOPER_GUIDE | GENERAL_REFERENCE | TROUBLESHOOTING

datatype TroubleshootingCategory =
  ACCESS_DENIED | CONFIGURATION | PERMISSIONS | AUTHENTICATION | API_ERRORS | NETWORK
  | PERFORMANCE | GENERAL

record ContentSection =
  sec_id :: string
  heading :: string
  sec_content :: string
  level :: nat

record TroubleshootingStep =
  step :: nat
  step_title :: string
  step_description :: string
  codeExample :: "string option"
  relatedErrors :: "string list"

record CodeExample =
  language :: string
  code :: string
  ex_description :: string
  filename :: "string option"

record BreadcrumbItem =
  crumb_title :: string
  crumb_url :: string

record ContentBody =
  sections :: "ContentSection list"
  troubleshootingSteps :: "TroubleshootingStep list"
  codeExamples :: "CodeExample list"

text \<open>\<open>lastUpdated\<close> holds the clock reading that the source formats as an ISO string.\<close>

record CloudProviderContent =
  title :: string
  service :: string
  provider :: CloudProvider
  guideType :: GuideType
  url :: string
  description :: string
  keywords' :: "string list"
  content :: ContentBody
  breadcrumbs :: "BreadcrumbItem list"
  relatedLinks :: "string list"
  lastUpdated :: int
  category :: TroubleshootingCategory

text \<open>An optional field of the request is \<open>None\<close> when the caller leaves it out.\<close>

record CloudProviderSearchRequest =
  req_query :: string
  req_provider :: CloudProvider
  req_service :: "string option"
  req_category :: "TroubleshootingCategory option"
  req_guideType :: "GuideType option"
  req_maxResults :: "int option"

record CloudProviderSearchResponse =
  results :: "CloudProviderContent list"
  totalResults :: nat
  searchTime :: int
  error :: "string option"

section \<open>Content extraction (utils.ts)\<close>

definition dq :: char where
  "dq = CHR 0x22"

text \<open>\<^verbatim>\<open>/<[^>]*>/g\<close>\<close>

definition tag_re :: re where
  "tag_re = seqs [chr CHR ''<'', Star (not_chr CHR ''>''), chr CHR ''>'']"

text \<open>\<^verbatim>\<open>x.replace(/<[^>]*>/g, "").trim()\<close>\<close>

definition strip_tags_trim :: "string \<Rightarrow> string" where
  "strip_tags_trim x = trim (replaceAll tag_re [] x)"

subsection \<open>extractErrorsFromText\<close>

text \<open>
  \<^verbatim>\<open>/(?:error|exception|failure)[\s:]*([A-Z][A-Za-z0-9_]*(?:[A-Z][A-Za-z0-9_]*)*)/gi\<close>,
  \<^verbatim>\<open>/HTTP\s+(\d{3})\s+([A-Za-z\s]+)/gi\<close>,
  \<^verbatim>\<open>/AccessDenied|Forbidden|Unauthorized|InvalidRequest|BadRequest/gi\<close>,
  \<^verbatim>\<open>/([A-Z_][A-Z0-9_]*ERROR[A-Z0-9_]*)/gi\<close>
\<close>

definition word_chr :: "char \<Rightarrow> bool" where
  "word_chr x = (ascii_upper x \<or> ascii_lower x \<or> ascii_digit x \<or> x = CHR ''_'')"

definition error_name_re :: re where
  "error_name_re =
     seqs [alts (lit_i ''error'') [lit_i ''exception'', lit_i ''failure''],
           Star (Sym (\<lambda>x. js_space x \<or> x = CHR '':'')),
           Grp 1 (seqs [cls_i ascii_upper, Star (cls_i word_chr),
                        Star (seqs [cls_i ascii_upper, Star (cls_i word_chr)])])]"

definition http_status_re :: re where
  "http_status_re =
     seqs [lit_i ''HTTP'', Plus (Sym js_space),
           Grp 1 (seqs [Sym ascii_digit, Sym ascii_digit, Sym ascii_digit]),
           Plus (Sym js_space),
           Grp 2 (Plus (cls_i (\<lambda>x. ascii_upper x \<or> ascii_lower x \<or> js_space x)))]"

definition aws_error_re :: re where
  "aws_error_re =
     alts (lit_i ''AccessDenied'')
       [lit_i ''Forbidden'', lit_i ''Unauthorized'', lit_i ''InvalidRequest'', lit_i ''BadRequest'']"

definition error_const_re :: re where
  "error_const_re =
     Grp 1 (seqs [cls_i (\<lambda>x. ascii_upper x \<or> x = CHR ''_''),
                  Star (cls_i (\<lambda>x. ascii_upper x \<or> ascii_digit x \<or> x = CHR ''_'')),
                  lit_i ''ERROR'',
                  Star (cls_i (\<lambda>x. ascii_upper x \<or> ascii_digit x \<or> x = CHR ''_''))])"

definition errorPatterns :: "re list" where
  "errorPatterns = [error_name_re, http_status_re, aws_error_re, error_const_re]"

text \<open>\<^verbatim>\<open>match[1] || match[0]\<close>: the first group unless it is unset or empty.\<close>

definition match_error :: "rmatch \<Rightarrow> string" where
  "match_error mt =
     (case groups mt 1 of
        None \<Rightarrow> whole mt
      | Some g \<Rightarrow> if g \<noteq> [] then g else whole mt)"

text \<open>The body of the inner loop: \<^verbatim>\<open>if (error && !errors.includes(error)) errors.push(error.trim())\<close>.\<close>

definition push_error :: "string list \<Rightarrow> rmatch \<Rightarrow> string list" where
  "push_error errors mt =
     (let e = match_error mt
      in if e \<noteq> [] \<and> e \<notin> set errors then errors @ [trim e] else errors)"

definition extractErrorsFromText :: "string \<Rightarrow> string list" where
  "extractErrorsFromText text =
     foldl (\<lambda>errors pattern. foldl push_error errors (matchAll pattern text)) [] errorPatterns"

subsection \<open>extractCodeFromText\<close>

text \<open>\<^verbatim>\<open>/<code[^>]*>(.*?)<\/code>/s\<close> and \<^verbatim>\<open>/<pre[^>]*>(.*?)<\/pre>/s\<close>\<close>

definition code_re :: re where
  "code_re = seqs [lit ''<code'', Star (not_chr CHR ''>''), chr CHR ''>'',
                   Grp 1 (Lazy any_chr), lit ''</code>'']"

definition pre_re :: re where
  "pre_re = seqs [lit ''<pre'', Star (not_chr CHR ''>''), chr CHR ''>'',
                  Grp 1 (Lazy any_chr), lit ''</pre>'']"

definition extractCodeFromText :: "string \<Rightarrow> string option" where
  "extractCodeFromText html =
     (case js_match code_re html of
        Some codeMatch \<Rightarrow>
          (let code = strip_tags_trim (group_text codeMatch 1)
           in if 5 < length code then Some code else None)
      | None \<Rightarrow>
          (case js_match pre_re html of
             Some preMatch \<Rightarrow>
               (let code = strip_tags_trim (group_text preMatch 1)
                in if 5 < length code then Some code else None)
           | None \<Rightarrow> None))"

subsection \<open>mapLanguage, detectLanguageFromCode, extractCodeExamples\<close>

definition languageMap :: "(string \<times> string) list" where
  "languageMap =
     [(''js'', ''javascript''), (''ts'', ''typescript''), (''py'', ''python''), (''rb'', ''ruby''),
      (''yml'', ''yaml''), (''md'', ''markdown''), (''sh'', ''bash''), (''shell'', ''bash'')]"

text \<open>
  \<^verbatim>\<open>languageMap[lang?.toLowerCase()] || lang || "text"\<close>. The lookup is among the keys
  written in the literal; a language tag that is the name of a member that every object
  inherits is outside the model.
\<close>

definition mapLanguage :: "string \<Rightarrow> string" where
  "mapLanguage lang =
     (case map_of languageMap (toLowerCase lang) of
        Some l \<Rightarrow> l
      | None \<Rightarrow> if lang \<noteq> [] then lang else ''text'')"

definition detectLanguageFromCode :: "string \<Rightarrow> string" where
  "detectLanguageFromCode c =
     (if str_includes c ''aws '' \<or> str_includes c ''boto3'' \<or> str_includes c ''import boto''
      then ''python''
      else if str_includes c ''AWS.'' \<or> str_includes c ''aws-sdk'' then ''javascript''
      else if str_includes c ''#!/bin/bash'' \<or> str_includes c ''curl '' \<or> str_includes c ''aws ''
      then ''bash''
      else if str_includes c ''{'' \<and> str_includes c ''}'' \<and> str_includes c [dq] then ''json''
      else if str_includes c ''Version:'' \<and> str_includes c ''Statement:'' then ''json''
      else ''text'')"

text \<open>\<^verbatim>\<open>/<pre[^>]*(?:class="[^"]*lang-([^"]*)[^"]*")?[^>]*>(.*?)<\/pre>/gs\<close>\<close>

definition pre_lang_re :: re where
  "pre_lang_re =
     seqs [lit ''<pre'', Star (not_chr CHR ''>''),
           Opt (seqs [lit (''class='' @ [dq]), Star (not_chr dq), lit ''lang-'',
                      Grp 1 (Star (not_chr dq)), Star (not_chr dq), chr dq]),
           Star (not_chr CHR ''>''), chr CHR ''>'',
           Grp 2 (Lazy any_chr), lit ''</pre>'']"

text \<open>The body of the first loop: one \<^verbatim>\<open><pre>\<close> match.\<close>

definition push_pre :: "CodeExample list \<Rightarrow> rmatch \<Rightarrow> CodeExample list" where
  "push_pre examples mt =
     (let lang = (case groups mt 1 of None \<Rightarrow> ''text'' | Some g \<Rightarrow> if g \<noteq> [] then g else ''text'');
          c = strip_tags_trim (group_text mt 2)
      in if 5 < length c
         then examples @
           [\<lparr>language = mapLanguage lang, code = c,
             ex_description = ''Code example in '' @ (if lang \<noteq> [] then lang else ''text''),
             filename = None\<rparr>]
         else examples)"

text \<open>
  The body of the second loop: one \<^verbatim>\<open><code>\<close> match, under the source's condition
  \<^verbatim>\<open>code.length > 20 && !code.includes(" ") === false\<close>.
\<close>

definition push_code :: "CodeExample list \<Rightarrow> rmatch \<Rightarrow> CodeExample list" where
  "push_code examples mt =
     (let c = strip_tags_trim (group_text mt 1)
      in if 20 < length c \<and> ((\<not> str_includes c '' '') = False)
         then examples @
           [\<lparr>language = detectLanguageFromCode c, code = c,
             ex_description = ''Inline code snippet'', filename = None\<rparr>]
         else examples)"

definition extractCodeExamples :: "string \<Rightarrow> CodeExample list" where
  "extractCodeExamples html =
     foldl push_code (foldl push_pre [] (matchAll pre_lang_re html)) (matchAll code_re html)"

subsection \<open>extractTroubleshootingSteps\<close>

text \<open>
  \<^verbatim>\<open>/<ol[^>]*>(.*?)<\/ol>/gs\<close>, \<^verbatim>\<open>/<li[^>]*>(.*?)<\/li>/gs\<close> and
  \<^verbatim>\<open>/<h[3-6][^>]*>.*?(?:step|procedure|process|solution).*?<\/h[3-6]>(.*?)(?=<h[1-6]|$)/gis\<close>
\<close>

definition ol_re :: re where
  "ol_re = seqs [lit ''<ol'', Star (not_chr CHR ''>''), chr CHR ''>'',
                 Grp 1 (Lazy any_chr), lit ''</ol>'']"

definition li_re :: re where
  "li_re = seqs [lit ''<li'', Star (not_chr CHR ''>''), chr CHR ''>'',
                 Grp 1 (Lazy any_chr), lit ''</li>'']"

definition procedure_re :: re where
  "procedure_re =
     seqs [lit_i ''<h'', one_of ''3456'', Star (not_chr CHR ''>''), chr CHR ''>'',
           Lazy any_chr,
           alts (lit_i ''step'') [lit_i ''procedure'', lit_i ''process'', lit_i ''solution''],
           Lazy any_chr,
           lit_i ''</h'', one_of ''3456'', chr CHR ''>'',
           Grp 1 (Lazy any_chr),
           Ahead (Alt (seqs [lit_i ''<h'', one_of ''123456'']) EndOfInput)]"

text \<open>The step that the first loop pushes for an item kept under the number \<open>stepNumber\<close>.\<close>

definition list_step :: "nat \<Rightarrow> string \<Rightarrow> TroubleshootingStep" where
  "list_step stepNumber itemContent =
     (let cleanText = strip_tags_trim itemContent
      in \<lparr>step = stepNumber,
          step_title = (if 100 < length cleanText then take 100 cleanText @ ''...'' else cleanText),
          step_description = cleanText,
          codeExample = extractCodeFromText itemContent,
          relatedErrors = extractErrorsFromText cleanText\<rparr>)"

text \<open>
  The body of the loop over the items of one list; the state is the counter
  \<^verbatim>\<open>stepNumber\<close> and the array \<^verbatim>\<open>steps\<close>.
\<close>

definition push_item :: "nat \<times> TroubleshootingStep list \<Rightarrow> rmatch \<Rightarrow> nat \<times> TroubleshootingStep list" where
  "push_item st itemMatch =
     (let stepNumber = fst st; steps = snd st; itemContent = group_text itemMatch 1
      in if 10 < length (strip_tags_trim itemContent)
         then (stepNumber + 1, steps @ [list_step stepNumber itemContent])
         else (stepNumber, steps))"

text \<open>The body of the loop over the lists: the counter starts at 1 for each list.\<close>

definition push_list :: "TroubleshootingStep list \<Rightarrow> rmatch \<Rightarrow> TroubleshootingStep list" where
  "push_list steps listMatch =
     snd (foldl push_item (1, steps) (matchAll li_re (group_text listMatch 1)))"

definition listPass :: "string \<Rightarrow> TroubleshootingStep list" where
  "listPass html = foldl push_list [] (matchAll ol_re html)"

text \<open>The body of the loop over the headed procedures.\<close>

definition push_procedure :: "TroubleshootingStep list \<Rightarrow> rmatch \<Rightarrow> TroubleshootingStep list" where
  "push_procedure steps procMatch =
     (let c = group_text procMatch 1; cleanText = strip_tags_trim c
      in if 20 < length cleanText
         then steps @
           [\<lparr>step = length steps + 1,
             step_title = ''Troubleshooting Procedure'',
             step_description =
               (if 500 < length cleanText then take 500 cleanText @ ''...'' else cleanText),
             codeExample = extractCodeFromText c,
             relatedErrors = extractErrorsFromText cleanText\<rparr>]
         else steps)"

definition extractTroubleshootingSteps :: "string \<Rightarrow> TroubleshootingStep list" where
  "extractTroubleshootingSteps html =
     foldl push_procedure (listPass html) (matchAll procedure_re html)"

subsection \<open>cleanHtmlContent\<close>

text \<open>
  \<^verbatim>\<open>/<script[^>]*>.*?<\/script>/gis\<close>, \<^verbatim>\<open>/<style[^>]*>.*?<\/style>/gis\<close>, \<^verbatim>\<open>/<[^>]*>/g\<close>,
  \<^verbatim>\<open>/\s+/g\<close> and \<^verbatim>\<open>/\n\s*\n/g\<close>
\<close>

definition script_re :: re where
  "script_re = seqs [lit_i ''<script'', Star (not_chr CHR ''>''), chr CHR ''>'',
                     Lazy any_chr, lit_i ''</script>'']"

definition style_re :: re where
  "style_re = seqs [lit_i ''<style'', Star (not_chr CHR ''>''), chr CHR ''>'',
                    Lazy any_chr, lit_i ''</style>'']"

definition spaces_re :: re where
  "spaces_re = Plus (Sym js_space)"

definition blank_line_re :: re where
  "blank_line_re = seqs [chr CHR 0x0A, Star (Sym js_space), chr CHR 0x0A]"

definition cleanHtmlContent :: "string \<Rightarrow> string" where
  "cleanHtmlContent html =
     trim (replaceAll blank_line_re [CHR 0x0A]
       (replaceAll spaces_re '' ''
         (replaceAll tag_re '' ''
           (replaceAll style_re []
             (replaceAll script_re [] html)))))"

section \<open>Fetching, parsing and searching (api.ts)\<close>

definition AWS_DOCS_BASE_URL :: string where
  "AWS_DOCS_BASE_URL = ''https://docs.aws.amazon.com''"

text \<open>The object literal, in the order of its keys.\<close>

definition AWS_SERVICE_PATTERNS :: "(string \<times> string) list" where
  "AWS_SERVICE_PATTERNS =
     [(''iam'', ''/IAM/latest/UserGuide/''),
      (''s3'', ''/AmazonS3/latest/userguide/''),
      (''lambda'', ''/lambda/latest/dg/''),
      (''apigateway'', ''/apigateway/latest/developerguide/''),
      (''cloudwatch'', ''/AmazonCloudWatch/latest/''),
      (''ec2'', ''/AWSEC2/latest/UserGuide/''),
      (''rds'', ''/AmazonRDS/latest/UserGuide/''),
      (''dynamodb'', ''/amazondynamodb/latest/developerguide/'')]"

text \<open>
  \<^verbatim>\<open>AWS_SERVICE_PATTERNS[service]\<close>. A key written in the literal gives its pattern. A
  name that every object inherits gives the inherited member: a function, or the
  prototype object for \<^verbatim>\<open>__proto__\<close>. Every one of these values is truthy, and the value
  is used only inside the template literal of \<^verbatim>\<open>getTroubleshootingUrls\<close>; so an inherited
  member stands here as the text that the literal makes of it. Any other name gives
  \<^verbatim>\<open>undefined\<close>, here \<open>None\<close>.
\<close>

definition inherited_members :: "(string \<times> string) list" where
  "inherited_members =
     [(''constructor'', ''function Object() { [native code] }''),
      (''__proto__'', ''[object Object]''),
      (''hasOwnProperty'', ''function hasOwnProperty() { [native code] }''),
      (''isPrototypeOf'', ''function isPrototypeOf() { [native code] }''),
      (''propertyIsEnumerable'', ''function propertyIsEnumerable() { [native code] }''),
      (''toLocaleString'', ''function toLocaleString() { [native code] }''),
      (''toString'', ''function toString() { [native code] }''),
      (''valueOf'', ''function valueOf() { [native code] }''),
      (''__defineGetter__'', ''function __defineGetter__() { [native code] }''),
      (''__defineSetter__'', ''function __defineSetter__() { [native code] }''),
      (''__lookupGetter__'', ''function __lookupGetter__() { [native code] }''),
      (''__lookupSetter__'', ''function __lookupSetter__() { [native code] }'')]"

definition lookup_servicePattern :: "string \<Rightarrow> string option" where
  "lookup_servicePattern svc =
     (case map_of AWS_SERVICE_PATTERNS svc of
        Some servicePattern \<Rightarrow> Some servicePattern
      | None \<Rightarrow> map_of inherited_members svc)"

definition CACHE_TTL :: int where
  "CACHE_TTL = 12 * 60 * 60 * 1000"

subsection \<open>The world outside the functions\<close>

text \<open>
  The mutable state is the module's \<^verbatim>\<open>contentCache\<close>, the clock that \<^verbatim>\<open>Date.now()\<close> reads
  (milliseconds), and the list of the addresses handed to \<^verbatim>\<open>fetch\<close> so far. The
  environment is what the functions cannot decide: what the network answers for an
  address (\<open>NetworkError\<close> when \<^verbatim>\<open>fetch\<close> rejects; a body of \<open>None\<close> when reading the
  text rejects), how long the answer takes, and whether the runtime raises inside the
  \<^verbatim>\<open>try\<close> block of the parser. Messages written to the console are not part of the model.
\<close>

record cache_entry =
  entry_content :: CloudProviderContent
  entry_timestamp :: int

record world =
  contentCache :: "string \<rightharpoonup> cache_entry"
  clock :: int
  requests :: "string list"

datatype fetch_outcome =
    NetworkError
  | Response (status: int) (statusText: string) (body: "string option")

record env =
  network :: "string \<Rightarrow> fetch_outcome"
  latency :: "string \<Rightarrow> int"
  parser_raises :: "string \<Rightarrow> string \<Rightarrow> bool"

subsection \<open>parseAwsDocumentationHtml\<close>

text \<open>
  \<^verbatim>\<open>/<title>([^<]+)<\/title>/i\<close>, \<^verbatim>\<open>/<meta name="description" content="([^"]+)"/i\<close>,
  \<^verbatim>\<open>/<meta name="keywords" content="([^"]+)"/i\<close>, \<^verbatim>\<open>/docs\.aws\.amazon\.com\/([^\/]+)/\<close>,
  \<^verbatim>\<open>/<div[^>]*id="main-content"[^>]*>(.*?)<\/div>/s\<close> and
  \<^verbatim>\<open>/<h([1-6])[^>]*[^>]*>([^<]+)<\/h[1-6]>/g\<close>
\<close>

definition title_re :: re where
  "title_re = seqs [lit_i ''<title>'', Grp 1 (Plus (not_chr CHR ''<'')), lit_i ''</title>'']"

definition meta_re :: "string \<Rightarrow> re" where
  "meta_re name =
     seqs [lit_i (''<meta name='' @ [dq] @ name @ [dq] @ '' content='' @ [dq]),
           Grp 1 (Plus (not_chr dq)), chr dq]"

definition service_re :: re where
  "service_re = seqs [lit ''docs.aws.amazon.com/'', Grp 1 (Plus (not_chr CHR ''/''))]"

definition main_content_re :: re where
  "main_content_re =
     seqs [lit ''<div'', Star (not_chr CHR ''>''), lit (''id='' @ [dq] @ ''main-content'' @ [dq]),
           Star (not_chr CHR ''>''), chr CHR ''>'', Grp 1 (Lazy any_chr), lit ''</div>'']"

definition heading_re :: re where
  "heading_re =
     seqs [lit ''<h'', Grp 1 (one_of ''123456''), Star (not_chr CHR ''>''), Star (not_chr CHR ''>''),
           chr CHR ''>'', Grp 2 (Plus (not_chr CHR ''<'')), lit ''</h'', one_of ''123456'',
           chr CHR ''>'']"

definition serviceMapping :: "(string \<times> string) list" where
  "serviceMapping =
     [(''IAM'', ''iam''), (''AmazonS3'', ''s3''), (''lambda'', ''lambda''),
      (''apigateway'', ''api-gateway''), (''AmazonCloudWatch'', ''cloudwatch'')]"

text \<open>\<^verbatim>\<open>parseInt\<close> of the first group of \<open>heading_re\<close>, one digit from 1 to 6.\<close>

definition parseInt_digit :: "string \<Rightarrow> nat" where
  "parseInt_digit s =
     (case s of
        [d] \<Rightarrow> (case map_of (zip ''0123456789'' [0 ..< 10]) d of None \<Rightarrow> 0 | Some v \<Rightarrow> v)
      | _ \<Rightarrow> 0)"

function show_nat :: "nat \<Rightarrow> string" where
  "show_nat n =
     (if n < 10 then [''0123456789'' ! n] else show_nat (n div 10) @ [''0123456789'' ! (n mod 10)])"
  by pat_completeness auto
termination
  by (relation "measure (\<lambda>n. n)") auto

text \<open>
  The expression that the source builds for one heading, with the flag \<^verbatim>\<open>s\<close>:
  \<^verbatim>\<open><h${level}[^>]*>${escaped heading}</h${level}>(.*?)(?=<h[1-${level}]|$)\<close>.
  The source escapes the special characters of the heading, so the heading stands
  for itself.
\<close>

definition section_re :: "nat \<Rightarrow> string \<Rightarrow> re" where
  "section_re lv hd_text =
     seqs [lit (''<h'' @ show_nat lv), Star (not_chr CHR ''>''), chr CHR ''>'',
           lit hd_text, lit (''</h'' @ show_nat lv @ ''>''),
           Grp 1 (Lazy any_chr),
           Ahead (Alt (seqs [lit ''<h'', one_of (take lv ''123456789'')]) EndOfInput)]"

text \<open>The body of the loop over the headings; the state is \<^verbatim>\<open>sectionIndex\<close> and \<^verbatim>\<open>sections\<close>.\<close>

definition push_section :: "string \<Rightarrow> nat \<times> ContentSection list \<Rightarrow> rmatch \<Rightarrow> nat \<times> ContentSection list" where
  "push_section mainContent st mt =
     (let sectionIndex = fst st; secs = snd st;
          lv = parseInt_digit (group_text mt 1);
          hd_text = trim (group_text mt 2);
          sectionContent =
            (case js_match (section_re lv hd_text) mainContent of
               None \<Rightarrow> []
             | Some sm \<Rightarrow> cleanHtmlContent (group_text sm 1))
      in (sectionIndex + 1,
          secs @ [\<lparr>sec_id = ''section-'' @ show_nat sectionIndex, heading = hd_text,
                    sec_content = sectionContent, level = lv\<rparr>]))"

text \<open>
  The parser reads the clock once, for \<open>lastUpdated\<close>. It answers \<open>None\<close> from its
  \<^verbatim>\<open>catch\<close> block only, that is when the runtime raises inside the \<^verbatim>\<open>try\<close> block.
\<close>

definition parseAwsDocumentationHtml :: "env \<Rightarrow> int \<Rightarrow> string \<Rightarrow> string \<Rightarrow> CloudProviderContent option" where
  "parseAwsDocumentationHtml e now html page_url =
     (if parser_raises e html page_url then None
      else
        (let ttl = (case js_match title_re html of
                      None \<Rightarrow> ''AWS Documentation''
                    | Some titleMatch \<Rightarrow>
                        trim (replace_first '' - Amazon Web Services'' [] (group_text titleMatch 1)));
             desc = (case js_match (meta_re ''description'') html of
                       None \<Rightarrow> [] | Some dm \<Rightarrow> group_text dm 1);
             kws = (case js_match (meta_re ''keywords'') html of
                      None \<Rightarrow> [] | Some km \<Rightarrow> map trim (split_on CHR '','' (group_text km 1)));
             svc0 = (case js_match service_re page_url of
                       None \<Rightarrow> ''aws'' | Some sm \<Rightarrow> group_text sm 1);
             svc = (case map_of serviceMapping svc0 of
                      None \<Rightarrow> toLowerCase svc0
                    | Some v \<Rightarrow> v);
             urlLower = toLowerCase page_url;
             titleLower = toLowerCase ttl;
             cat = (if str_includes urlLower ''access-denied'' \<or> str_includes titleLower ''access denied''
                    then ACCESS_DENIED
                    else if str_includes urlLower ''permission'' \<or> str_includes titleLower ''permission''
                    then PERMISSIONS
                    else if str_includes urlLower ''auth'' \<or> str_includes titleLower ''auth''
                    then AUTHENTICATION
                    else if str_includes urlLower ''config'' \<or> str_includes titleLower ''config''
                    then CONFIGURATION
                    else GENERAL);
             mainContent = (case js_match main_content_re html of
                              None \<Rightarrow> html | Some cm \<Rightarrow> group_text cm 1);
             secs = snd (foldl (push_section mainContent) (0, []) (matchAll heading_re mainContent))
         in Some \<lparr>title = ttl, service = svc, provider = AWS, guideType = USER_GUIDE,
                   url = page_url, description = desc, keywords' = kws,
                   content = \<lparr>sections = secs,
                              troubleshootingSteps = extractTroubleshootingSteps mainContent,
                              codeExamples = extractCodeExamples mainContent\<rparr>,
                   breadcrumbs = [], relatedLinks = [], lastUpdated = now, category = cat\<rparr>))"

subsection \<open>fetchAwsDocContent\<close>

text \<open>
  A fresh cache entry is returned as it is. Otherwise the address is fetched: the request
  is recorded and the clock moves by the time the answer takes. A rejected \<^verbatim>\<open>fetch\<close>, a
  status outside 200 to 299 other than 404 (the source throws) and an unreadable body all
  end in the \<^verbatim>\<open>catch\<close> block, which answers \<^verbatim>\<open>null\<close>; so does the status 404 directly.
\<close>

definition fetchAwsDocContent :: "env \<Rightarrow> world \<Rightarrow> string \<Rightarrow> CloudProviderContent option \<times> world" where
  "fetchAwsDocContent e w page_url =
     (case (case contentCache w page_url of
              None \<Rightarrow> None
            | Some cached \<Rightarrow>
                if clock w - entry_timestamp cached < CACHE_TTL then Some (entry_content cached)
                else None) of
        Some c \<Rightarrow> (Some c, w)
      | None \<Rightarrow>
          (let w1 = w\<lparr>clock := clock w + latency e page_url, requests := requests w @ [page_url]\<rparr>
           in case network e page_url of
                NetworkError \<Rightarrow> (None, w1)
              | Response st st_text bd \<Rightarrow>
                  if \<not> (200 \<le> st \<and> st \<le> 299) then (if st = 404 then (None, w1) else (None, w1))
                  else
                    (case bd of
                       None \<Rightarrow> (None, w1)
                     | Some html \<Rightarrow>
                         (case parseAwsDocumentationHtml e (clock w1) html page_url of
                            None \<Rightarrow> (None, w1)
                          | Some c \<Rightarrow>
                              (Some c,
                               w1\<lparr>contentCache := (contentCache w1)
                                    (page_url \<mapsto> \<lparr>entry_content = c, entry_timestamp = clock w1\<rparr>)\<rparr>)))))"

subsection \<open>contentMatchesQuery\<close>

definition contentMatchesQuery :: "CloudProviderContent \<Rightarrow> string \<Rightarrow> TroubleshootingCategory option \<Rightarrow> bool" where
  "contentMatchesQuery c q cat =
     (let queryLower = toLowerCase q
      in if (case cat of None \<Rightarrow> False | Some ct \<Rightarrow> category c \<noteq> ct) then False
         else str_includes (toLowerCase (title c)) queryLower
              \<or> str_includes (toLowerCase (description c)) queryLower
              \<or> list_ex (\<lambda>keyword. str_includes (toLowerCase keyword) queryLower) (keywords' c))"

subsection \<open>getTroubleshootingUrls, searchServiceDocs\<close>

definition troubleshootingPatterns :: "string list" where
  "troubleshootingPatterns =
     [''troubleshoot.html'', ''troubleshoot-access-denied.html'', ''troubleshoot-policies.html'',
      ''troubleshoot-roles.html'', ''security_iam_troubleshoot.html'',
      ''troubleshoot-403-errors.html'', ''troubleshoot-permissions.html'']"

definition getTroubleshootingUrls :: "string \<Rightarrow> string \<Rightarrow> string list" where
  "getTroubleshootingUrls svc servicePattern =
     (let baseUrl = AWS_DOCS_BASE_URL @ servicePattern
      in map (\<lambda>pattern. baseUrl @ pattern) troubleshootingPatterns)"

text \<open>
  The loop over the pages, the cache and the clock threaded through.
  \<open>fetchAwsDocContent\<close> catches what it raises, so the \<^verbatim>\<open>catch\<close> of this loop has no case.
\<close>

fun pages_loop :: "env \<Rightarrow> string \<Rightarrow> TroubleshootingCategory option \<Rightarrow> string list
                    \<Rightarrow> CloudProviderContent list \<times> world \<Rightarrow> CloudProviderContent list \<times> world" where
  "pages_loop e q cat [] (res, w) = (res, w)"
| "pages_loop e q cat (pageUrl # rest) (res, w) =
     (case fetchAwsDocContent e w pageUrl of
        (None, w') \<Rightarrow> pages_loop e q cat rest (res, w')
      | (Some c, w') \<Rightarrow>
          if contentMatchesQuery c q cat then pages_loop e q cat rest (res @ [c], w')
          else pages_loop e q cat rest (res, w'))"

definition searchServiceDocs :: "env \<Rightarrow> world \<Rightarrow> string \<Rightarrow> string \<Rightarrow> string
                                  \<Rightarrow> TroubleshootingCategory option \<Rightarrow> CloudProviderContent list \<times> world" where
  "searchServiceDocs e w svc servicePattern q cat =
     pages_loop e q cat (getTroubleshootingUrls svc servicePattern) ([], w)"

subsection \<open>searchAwsDocs, searchCloudProviderDocs\<close>

text \<open>\<^verbatim>\<open>xs.slice(0, n)\<close> for an integer \<open>n\<close>: a negative \<open>n\<close> counts from the end.\<close>

definition slice0 :: "'a list \<Rightarrow> int \<Rightarrow> 'a list" where
  "slice0 xs n = (if n < 0 then take (nat (int (length xs) + n)) xs else take (nat n) xs)"

text \<open>
  The loop over the services: \<^verbatim>\<open>break\<close> once the results reach \<^verbatim>\<open>maxResults\<close>,
  \<^verbatim>\<open>continue\<close> for a name whose lookup gives nothing.
\<close>

fun services_loop :: "env \<Rightarrow> CloudProviderSearchRequest \<Rightarrow> int \<Rightarrow> string list
                       \<Rightarrow> CloudProviderContent list \<times> world \<Rightarrow> CloudProviderContent list \<times> world" where
  "services_loop e req maxResults [] (res, w) = (res, w)"
| "services_loop e req maxResults (svc # rest) (res, w) =
     (if maxResults \<le> int (length res) then (res, w)
      else
        (case lookup_servicePattern svc of
           None \<Rightarrow> services_loop e req maxResults rest (res, w)
         | Some servicePattern \<Rightarrow>
             (case searchServiceDocs e w svc servicePattern (req_query req) (req_category req) of
                (serviceDocs, w') \<Rightarrow>
                  services_loop e req maxResults rest
                    (res @ slice0 serviceDocs (maxResults - int (length res)), w'))))"

text \<open>
  \<^verbatim>\<open>searchRequest.maxResults || 10\<close>: 10 when the field is absent or 0. An absent or
  empty \<^verbatim>\<open>service\<close> selects every key of the pattern table. The model takes
  \<^verbatim>\<open>maxResults\<close> as an integer.
\<close>

definition searchAwsDocs :: "env \<Rightarrow> world \<Rightarrow> CloudProviderSearchRequest \<Rightarrow> int
                              \<Rightarrow> CloudProviderSearchResponse \<times> world" where
  "searchAwsDocs e w req startTime =
     (let maxResults = (case req_maxResults req of
                          None \<Rightarrow> 10
                        | Some n \<Rightarrow> if n \<noteq> 0 then n else 10);
          servicesToSearch = (case req_service req of
                                None \<Rightarrow> map fst AWS_SERVICE_PATTERNS
                              | Some s \<Rightarrow> if s \<noteq> [] then [toLowerCase s]
                                          else map fst AWS_SERVICE_PATTERNS)
      in case services_loop e req maxResults servicesToSearch ([], w) of
           (res, w') \<Rightarrow>
             (\<lparr>results = res, totalResults = length res,
               searchTime = clock w' - startTime, error = None\<rparr>, w'))"

text \<open>
  Nothing below raises, so the outer \<^verbatim>\<open>catch\<close> has no case; the function always answers
  with a response.
\<close>

definition searchCloudProviderDocs :: "env \<Rightarrow> world \<Rightarrow> CloudProviderSearchRequest
                                        \<Rightarrow> CloudProviderSearchResponse \<times> world" where
  "searchCloudProviderDocs e w req =
     (let startTime = clock w
      in if req_provider req = AWS then searchAwsDocs e w req startTime
         else (\<lparr>results = [], totalResults = 0, searchTime = clock w - startTime,
                error = Some (''Provider '' @ provider_value (req_provider req)
                              @ '' not yet supported'')\<rparr>, w))"

section \<open>What a match guarantees\<close>

text \<open>
  Predicates on expressions, for the proofs: \<open>chars_ok Q r\<close> when every symbol of \<open>r\<close>
  holds only code units with \<open>Q\<close>; \<open>non_null r\<close> when \<open>r\<close> cannot match the empty string;
  \<open>keeps n r\<close> when \<open>r\<close> has no group \<open>n\<close>; \<open>sets_grp n Q r\<close> when every match of \<open>r\<close>
  sets group \<open>n\<close> to a string that is not empty and has \<open>Q\<close> throughout;
  \<open>always_sets n r\<close> when every match of \<open>r\<close> sets group \<open>n\<close>.
\<close>

fun chars_ok :: "(char \<Rightarrow> bool) \<Rightarrow> re \<Rightarrow> bool" where
  "chars_ok Q (Sym p) = (\<forall>x. p x \<longrightarrow> Q x)"
| "chars_ok Q Eps = True"
| "chars_ok Q (Seq a b) = (chars_ok Q a \<and> chars_ok Q b)"
| "chars_ok Q (Alt a b) = (chars_ok Q a \<and> chars_ok Q b)"
| "chars_ok Q (Star a) = chars_ok Q a"
| "chars_ok Q (Lazy a) = chars_ok Q a"
| "chars_ok Q (Grp n a) = chars_ok Q a"
| "chars_ok Q (Ahead a) = True"
| "chars_ok Q EndOfInput = True"

fun non_null :: "re \<Rightarrow> bool" where
  "non_null (Sym p) = True"
| "non_null Eps = False"
| "non_null (Seq a b) = (non_null a \<or> non_null b)"
| "non_null (Alt a b) = (non_null a \<and> non_null b)"
| "non_null (Star a) = False"
| "non_null (Lazy a) = False"
| "non_null (Grp n a) = non_null a"
| "non_null (Ahead a) = False"
| "non_null EndOfInput = False"

fun keeps :: "nat \<Rightarrow> re \<Rightarrow> bool" where
  "keeps n (Sym p) = True"
| "keeps n Eps = True"
| "keeps n (Seq a b) = (keeps n a \<and> keeps n b)"
| "keeps n (Alt a b) = (keeps n a \<and> keeps n b)"
| "keeps n (Star a) = keeps n a"
| "keeps n (Lazy a) = keeps n a"
| "keeps n (Grp m a) = (m \<noteq> n \<and> keeps n a)"
| "keeps n (Ahead a) = keeps n a"
| "keeps n EndOfInput = True"

fun sets_grp :: "nat \<Rightarrow> (char \<Rightarrow> bool) \<Rightarrow> re \<Rightarrow> bool" where
  "sets_grp n Q (Grp m a) = (m = n \<and> chars_ok Q a \<and> non_null a)"
| "sets_grp n Q (Seq a b) = ((sets_grp n Q a \<and> keeps n b) \<or> sets_grp n Q b)"
| "sets_grp n Q r = False"

fun always_sets :: "nat \<Rightarrow> re \<Rightarrow> bool" where
  "always_sets n (Grp m a) = (m = n \<or> always_sets n a)"
| "always_sets n (Seq a b) = ((always_sets n a \<and> keeps n b) \<or> always_sets n b)"
| "always_sets n (Alt a b) = (always_sets n a \<and> always_sets n b)"
| "always_sets n r = False"

definition good :: "(char \<Rightarrow> bool) \<Rightarrow> string option \<Rightarrow> bool" where
  "good Q g = (case g of None \<Rightarrow> False | Some u \<Rightarrow> u \<noteq> [] \<and> (\<forall>x\<in>set u. Q x))"

text \<open>
  What a run of \<open>r\<close> from \<open>s\<close> and \<open>c\<close> hands to its continuation: the rest \<open>s'\<close> after the
  matched text \<open>u\<close>, and the captures \<open>c'\<close>.
\<close>

definition post :: "(char \<Rightarrow> bool) \<Rightarrow> re \<Rightarrow> string \<Rightarrow> caps \<Rightarrow> string \<Rightarrow> string \<Rightarrow> caps \<Rightarrow> bool" where
  "post Q r s c u s' c' =
     (s = u @ s' \<and> (chars_ok Q r \<longrightarrow> (\<forall>x\<in>set u. Q x)) \<and> (non_null r \<longrightarrow> u \<noteq> [])
      \<and> (\<forall>n. keeps n r \<longrightarrow> c' n = c n) \<and> (\<forall>n. sets_grp n Q r \<longrightarrow> good Q (c' n))
      \<and> (\<forall>n. always_sets n r \<longrightarrow> c' n \<noteq> None))"

text \<open>A match as \<open>js_match\<close> and \<open>matchAll\<close> report it: the whole text and the captures of
  one run of the expression.\<close>

definition is_hit :: "(char \<Rightarrow> bool) \<Rightarrow> re \<Rightarrow> rmatch \<Rightarrow> bool" where
  "is_hit Q r h = (\<exists>s'. post Q r (whole h @ s') Map.empty (whole h) s' (groups h))"

definition not_space :: "char \<Rightarrow> bool" where
  "not_space x = (\<not> js_space x)"

text \<open>Appending a string that the list does not hold yet.\<close>

definition add_new :: "string list \<Rightarrow> string \<Rightarrow> string list" where
  "add_new a e = (if e \<in> set a then a else a @ [e])"

section \<open>The reading of the single-match extractor in the spec\<close>



section \<open>The extractors in terms of the matches\<close>




section \<open>Example inputs\<close>

text \<open>Concrete networks, worlds and requests, for the instances stated with the theorems.\<close>

definition ex_env :: "(string \<Rightarrow> fetch_outcome) \<Rightarrow> env" where
  "ex_env net = \<lparr>network = net, latency = (\<lambda>u. 5), parser_raises = (\<lambda>html u. False)\<rparr>"

definition ex_down :: env where
  "ex_down = ex_env (\<lambda>u. NetworkError)"

definition ex_up :: env where
  "ex_up = ex_env (\<lambda>u. Response 200 ''OK'' (Some []))"

definition ex_single :: env where
  "ex_single =
     ex_env (\<lambda>u. if u = ''https://docs.aws.amazon.com/IAM/latest/UserGuide/troubleshoot.html''
                  then Response 200 ''OK'' (Some [])
                  else Response 404 ''Not Found'' None)"

definition ex_faulty :: env where
  "ex_faulty =
     \<lparr>network = (\<lambda>u. Response 200 ''OK'' (Some [])), latency = (\<lambda>u. 5),
      parser_raises = (\<lambda>html u. True)\<rparr>"

definition ex_world :: world where
  "ex_world = \<lparr>contentCache = Map.empty, clock = 1000, requests = []\<rparr>"

definition ex_request :: "CloudProvider \<Rightarrow> string option \<Rightarrow> int option \<Rightarrow> CloudProviderSearchRequest" where
  "ex_request p svc n =
     \<lparr>req_query = [], req_provider = p, req_service = svc, req_category = None,
      req_guideType = None, req_maxResults = n\<rparr>"

definition ex_url :: string where
  "ex_url = ''https://docs.aws.amazon.com/IAM/latest/UserGuide/troubleshoot.html''"

definition ex_page :: string where
  "ex_page = ''<title>Fix permission and config issues - Amazon Web Services</title>''"

definition ex_content :: CloudProviderContent where
  "ex_content =
     \<lparr>title = ''Troubleshooting IAM'', service = ''iam'', provider = AWS, guideType = USER_GUIDE,
      url = ex_url, description = [], keywords' = [],
      content = \<lparr>sections = [], troubleshootingSteps = [], codeExamples = []\<rparr>,
      breadcrumbs = [], relatedLinks = [], lastUpdated = 0, category = GENERAL\<rparr>"

definition ex_cached :: "int \<Rightarrow> world" where
  "ex_cached t =
     \<lparr>contentCache = [ex_url \<mapsto> \<lparr>entry_content = ex_content, entry_timestamp = 0\<rparr>],
      clock = t, requests = []\<rparr>"

section \<open>The search\<close>

lemma services_loop_cap:
  "int (length res) \<le> max 0 cap \<Longrightarrow>
   int (length (fst (services_loop e req cap svcs (res, w)))) \<le> max 0 cap"
proof (induction svcs arbitrary: res w)
  case Nil
  then show ?case by simp
next
  case (Cons svc rest)
  show ?case
  proof (cases "cap \<le> int (length res)")
    case True
    with Cons.prems show ?thesis by simp
  next
    case False
    show ?thesis
    proof (cases "lookup_servicePattern svc")
      case None
      with False Cons show ?thesis by simp
    next
      case (Some pat)
      obtain docs w' where
        sd: "searchServiceDocs e w svc pat (req_query req) (req_category req) = (docs, w')"
        by (cases "searchServiceDocs e w svc pat (req_query req) (req_category req)")
      have "int (length (res @ slice0 docs (cap - int (length res)))) \<le> max 0 cap"
        using False by (simp add: slice0_def)
      from Cons.IH [OF this] show ?thesis
        using False Some sd by simp
    qed
  qed
qed

text \<open>
  Claim C1. For a request whose provider is not aws, \<open>searchCloudProviderDocs\<close> answers with
  an empty list of results, \<open>totalResults = 0\<close> and an error string that is not empty.
  It answers (the function has no failing case), and the world it leaves is the world it
  found: no address was fetched, and the cache is as before.
\<close>

theorem C1_unsupported_provider:
  assumes "req_provider req \<noteq> AWS"
  shows "results (fst (searchCloudProviderDocs e w req)) = []
       \<and> totalResults (fst (searchCloudProviderDocs e w req)) = 0
       \<and> (\<exists>msg. error (fst (searchCloudProviderDocs e w req)) = Some msg \<and> msg \<noteq> [])
       \<and> snd (searchCloudProviderDocs e w req) = w"
  using assms by (simp add: searchCloudProviderDocs_def Let_def)

theorem C1_unsupported_provider_witness:
  "req_provider (ex_request AZURE None None) \<noteq> AWS
   \<and> results (fst (searchCloudProviderDocs ex_down ex_world
        (ex_request AZURE None None))) = []
   \<and> totalResults (fst (searchCloudProviderDocs ex_down ex_world
        (ex_request AZURE None None))) = 0
   \<and> error (fst (searchCloudProviderDocs ex_down ex_world
        (ex_request AZURE None None))) = Some ''Provider azure not yet supported''
   \<and> requests (snd (searchCloudProviderDocs ex_down ex_world
        (ex_request AZURE None None))) = []"
proof -
  have p: "req_provider (ex_request AZURE None None) \<noteq> AWS"
    by (simp add: ex_request_def)
  have "error (fst (searchCloudProviderDocs ex_down ex_world
        (ex_request AZURE None None))) = Some ''Provider azure not yet supported''"
    by (simp add: searchCloudProviderDocs_def Let_def ex_request_def)
  with p C1_unsupported_provider [OF p, of ex_down ex_world]
  show ?thesis by (simp add: ex_world_def)
qed

text \<open>
  Claim C3, as the code has it. The list of results of an AWS search is never longer than
  the limit in force, and \<open>totalResults\<close> is its length. The limit in force is
  \<open>maxResults\<close> when the request gives one other than 0, and 10 when the request gives
  none or gives 0; under a negative limit the list is empty.
\<close>

theorem C3_result_cap:
  "int (length (results (fst (searchAwsDocs e w req t))))
     \<le> max 0 (case req_maxResults req of None \<Rightarrow> 10 | Some n \<Rightarrow> if n = 0 then 10 else n)
   \<and> totalResults (fst (searchAwsDocs e w req t)) = length (results (fst (searchAwsDocs e w req t)))"
proof -
  let ?cap = "case req_maxResults req of None \<Rightarrow> 10 | Some n \<Rightarrow> if n \<noteq> 0 then n else 10"
  let ?svcs = "case req_service req of None \<Rightarrow> map fst AWS_SERVICE_PATTERNS
               | Some s \<Rightarrow> if s \<noteq> [] then [toLowerCase s] else map fst AWS_SERVICE_PATTERNS"
  have "int (length (fst (services_loop e req ?cap ?svcs ([], w)))) \<le> max 0 ?cap"
    by (rule services_loop_cap) simp
  moreover have "?cap = (case req_maxResults req of None \<Rightarrow> 10 | Some n \<Rightarrow> if n = 0 then 10 else n)"
    by (simp split: option.splits)
  ultimately show ?thesis
    by (cases "services_loop e req ?cap ?svcs ([], w)") (simp add: searchAwsDocs_def Let_def)
qed

theorem C3_result_cap_witness:
  "int (length (results (fst (searchAwsDocs ex_up ex_world
        (ex_request AWS (Some ''iam'') (Some 2)) 1000)))) \<le> 2
   \<and> totalResults (fst (searchAwsDocs ex_up ex_world
        (ex_request AWS (Some ''iam'') (Some 2)) 1000))
     = length (results (fst (searchAwsDocs ex_up ex_world
        (ex_request AWS (Some ''iam'') (Some 2)) 1000)))"
  using C3_result_cap [of ex_up ex_world
      "ex_request AWS (Some ''iam'') (Some 2)" 1000]
  by (simp add: ex_request_def)

text \<open>
  The claim as stated fails for \<open>maxResults = 0\<close>: the source reads 0 as no limit
  given, and a page that matches comes back.
\<close>

theorem C3_counterexample:
  "req_maxResults (ex_request AWS (Some ''iam'') (Some 0)) = Some 0
   \<and> length (results (fst (searchAwsDocs ex_single ex_world
        (ex_request AWS (Some ''iam'') (Some 0)) 1000))) = 1
   \<and> \<not> int (length (results (fst (searchAwsDocs ex_single ex_world
        (ex_request AWS (Some ''iam'') (Some 0)) 1000)))) \<le> 0"
proof -
  have "length (results (fst (searchAwsDocs ex_single ex_world
        (ex_request AWS (Some ''iam'') (Some 0)) 1000))) = 1"
    by code_simp
  then show ?thesis by (simp add: ex_request_def)
qed







section \<open>The cache\<close>

lemma fetch_fresh:
  "contentCache w u = Some entry \<Longrightarrow> clock w - entry_timestamp entry < CACHE_TTL \<Longrightarrow>
   fetchAwsDocContent e w u = (Some (entry_content entry), w)"
  by (simp add: fetchAwsDocContent_def)

lemma fetch_stale_result:
  "contentCache w u = Some entry \<Longrightarrow> \<not> clock w - entry_timestamp entry < CACHE_TTL \<Longrightarrow>
   fst (fetchAwsDocContent e w u) =
   fst (fetchAwsDocContent e (w\<lparr>contentCache := (contentCache w)(u := None)\<rparr>) u)"
  by (simp add: fetchAwsDocContent_def Let_def split: fetch_outcome.splits option.splits)

lemma fetch_stale_requests:
  "contentCache w u = Some entry \<Longrightarrow> \<not> clock w - entry_timestamp entry < CACHE_TTL \<Longrightarrow>
   requests (snd (fetchAwsDocContent e w u)) = requests w @ [u]"
  by (simp add: fetchAwsDocContent_def Let_def split: fetch_outcome.splits option.splits)

lemma fetch_stale_kept:
  "contentCache w u = Some entry \<Longrightarrow> \<not> clock w - entry_timestamp entry < CACHE_TTL \<Longrightarrow>
   contentCache (snd (fetchAwsDocContent e w u)) u =
     (case fst (fetchAwsDocContent e w u) of
        None \<Rightarrow> Some entry
      | Some c \<Rightarrow> Some \<lparr>entry_content = c,
                          entry_timestamp = clock (snd (fetchAwsDocContent e w u))\<rparr>)"
  by (simp add: fetchAwsDocContent_def Let_def split: fetch_outcome.splits option.splits)

lemma fetch_stored_then_hit:
  assumes "fetchAwsDocContent e w u = (Some c, w')" and "requests w' \<noteq> requests w"
    and "d < CACHE_TTL"
  shows "fetchAwsDocContent e' (w'\<lparr>clock := clock w' + d\<rparr>) u = (Some c, w'\<lparr>clock := clock w' + d\<rparr>)"
proof -
  from assms(1,2) have "contentCache w' u = Some \<lparr>entry_content = c, entry_timestamp = clock w'\<rparr>"
    by (auto simp: fetchAwsDocContent_def Let_def split: fetch_outcome.splits option.splits if_splits)
  with assms(3) show ?thesis
    by (simp add: fetchAwsDocContent_def)
qed

lemma fetch_cache_cases:
  "contentCache (snd (fetchAwsDocContent e w u)) = contentCache w
   \<or> (\<exists>st tx html c. network e u = Response st tx (Some html) \<and> 200 \<le> st \<and> st \<le> 299
        \<and> parseAwsDocumentationHtml e (clock w + latency e u) html u = Some c
        \<and> fst (fetchAwsDocContent e w u) = Some c
        \<and> contentCache (snd (fetchAwsDocContent e w u)) =
            (contentCache w)(u \<mapsto> \<lparr>entry_content = c, entry_timestamp = clock w + latency e u\<rparr>))"
  by (auto simp: fetchAwsDocContent_def Let_def split: fetch_outcome.splits option.splits)

lemma fetch_none_cache:
  "fst (fetchAwsDocContent e w u) = None \<Longrightarrow>
   contentCache (snd (fetchAwsDocContent e w u)) = contentCache w"
  by (auto simp: fetchAwsDocContent_def Let_def split: fetch_outcome.splits option.splits if_splits)

lemma fetch_failures_cache:
  "network e u = NetworkError \<Longrightarrow>
     contentCache (snd (fetchAwsDocContent e w u)) = contentCache w"
  "network e u = Response st tx bd \<Longrightarrow> \<not> (200 \<le> st \<and> st \<le> 299) \<Longrightarrow>
     contentCache (snd (fetchAwsDocContent e w u)) = contentCache w"
  "network e u = Response st tx None \<Longrightarrow>
     contentCache (snd (fetchAwsDocContent e w u)) = contentCache w"
  "network e u = Response st tx (Some html) \<Longrightarrow>
   parseAwsDocumentationHtml e (clock w + latency e u) html u = None \<Longrightarrow>
     contentCache (snd (fetchAwsDocContent e w u)) = contentCache w"
  by (auto simp: fetchAwsDocContent_def Let_def split: fetch_outcome.splits option.splits if_splits)

text \<open>
  Claim C2. The time to live is twelve hours, in milliseconds. With an entry stored for
  an address: while \<open>now - storedAt < TTL\<close> the lookup returns the stored record and
  changes nothing (no request is made); once the time to live has elapsed the lookup
  answers what it would answer were the entry absent, makes one request for the address,
  and leaves an entry under the address: the old one when the new fetch gives nothing,
  the freshly parsed record otherwise. A record that a lookup has just fetched and
  stored comes back from the next lookup, without a request, as long as less than the
  time to live has passed.
\<close>

theorem C2_cache_ttl:
  "CACHE_TTL = 43200000
   \<and> (contentCache w u = Some entry \<and> clock w - entry_timestamp entry < CACHE_TTL \<longrightarrow>
        fetchAwsDocContent e w u = (Some (entry_content entry), w))
   \<and> (contentCache w u = Some entry \<and> \<not> clock w - entry_timestamp entry < CACHE_TTL \<longrightarrow>
        fst (fetchAwsDocContent e w u) =
          fst (fetchAwsDocContent e (w\<lparr>contentCache := (contentCache w)(u := None)\<rparr>) u)
        \<and> requests (snd (fetchAwsDocContent e w u)) = requests w @ [u]
        \<and> contentCache (snd (fetchAwsDocContent e w u)) u =
            (case fst (fetchAwsDocContent e w u) of
               None \<Rightarrow> Some entry
             | Some c \<Rightarrow> Some \<lparr>entry_content = c,
                                 entry_timestamp = clock (snd (fetchAwsDocContent e w u))\<rparr>))
   \<and> (fetchAwsDocContent e w u = (Some c, w') \<and> requests w' \<noteq> requests w \<and> d < CACHE_TTL \<longrightarrow>
        fetchAwsDocContent e' (w'\<lparr>clock := clock w' + d\<rparr>) u
          = (Some c, w'\<lparr>clock := clock w' + d\<rparr>))"
  using fetch_fresh [of w u entry e] fetch_stale_result [of w u entry e]
    fetch_stale_requests [of w u entry e] fetch_stale_kept [of w u entry e]
    fetch_stored_then_hit [of e w u c w' d e']
  by (simp add: CACHE_TTL_def)

theorem C2_cache_ttl_witness:
  "contentCache (ex_cached 1000) ex_url = Some \<lparr>entry_content = ex_content, entry_timestamp = 0\<rparr>
   \<and> clock (ex_cached 1000) - 0 < CACHE_TTL
   \<and> fetchAwsDocContent ex_down (ex_cached 1000) ex_url = (Some ex_content, ex_cached 1000)
   \<and> contentCache (ex_cached 43200000) ex_url
       = Some \<lparr>entry_content = ex_content, entry_timestamp = 0\<rparr>
   \<and> \<not> clock (ex_cached 43200000) - 0 < CACHE_TTL
   \<and> fst (fetchAwsDocContent ex_down (ex_cached 43200000) ex_url) = None
   \<and> requests (snd (fetchAwsDocContent ex_down (ex_cached 43200000) ex_url)) = [ex_url]
   \<and> contentCache (snd (fetchAwsDocContent ex_down (ex_cached 43200000) ex_url)) ex_url
       = Some \<lparr>entry_content = ex_content, entry_timestamp = 0\<rparr>
   \<and> fst (fetchAwsDocContent ex_up ex_world ex_url) \<noteq> None
   \<and> requests (snd (fetchAwsDocContent ex_up ex_world ex_url)) \<noteq> requests ex_world
   \<and> (1000 :: int) < CACHE_TTL
   \<and> fetchAwsDocContent ex_down
        ((snd (fetchAwsDocContent ex_up ex_world ex_url))
           \<lparr>clock := clock (snd (fetchAwsDocContent ex_up ex_world ex_url)) + 1000\<rparr>) ex_url
       = (fst (fetchAwsDocContent ex_up ex_world ex_url),
          (snd (fetchAwsDocContent ex_up ex_world ex_url))
           \<lparr>clock := clock (snd (fetchAwsDocContent ex_up ex_world ex_url)) + 1000\<rparr>)"
proof -
  let ?old = "\<lparr>entry_content = ex_content, entry_timestamp = 0\<rparr>"
  let ?r = "fetchAwsDocContent ex_up ex_world ex_url"
  have f1: "contentCache (ex_cached 1000) ex_url = Some ?old"
    and f2: "clock (ex_cached 1000) - entry_timestamp ?old < CACHE_TTL"
    by (simp_all add: ex_cached_def CACHE_TTL_def)
  have s1: "contentCache (ex_cached 43200000) ex_url = Some ?old"
    and s2: "\<not> clock (ex_cached 43200000) - entry_timestamp ?old < CACHE_TTL"
    by (simp_all add: ex_cached_def CACHE_TTL_def)
  have down: "fst (fetchAwsDocContent ex_down (ex_cached 43200000) ex_url) = None"
    using s1 s2 by (simp add: fetchAwsDocContent_def ex_down_def ex_env_def Let_def)
  have up: "fst ?r \<noteq> None" and rq: "requests (snd ?r) \<noteq> requests ex_world"
    by (simp_all add: fetchAwsDocContent_def parseAwsDocumentationHtml_def ex_up_def ex_env_def
        ex_world_def Let_def)
  from up obtain c where c: "fst ?r = Some c" by blast
  then have r: "?r = (Some c, snd ?r)" by (simp add: prod_eq_iff)
  have d: "(1000 :: int) < CACHE_TTL" by (simp add: CACHE_TTL_def)
  have rq0: "requests (ex_cached 43200000) = []" by (simp add: ex_cached_def)
  from C2_cache_ttl [where w = "ex_cached 1000" and u = ex_url and entry = ?old and e = ex_down]
    f1 f2
  have a: "fetchAwsDocContent ex_down (ex_cached 1000) ex_url = (Some (entry_content ?old), ex_cached 1000)"
    by blast
  from C2_cache_ttl [where w = "ex_cached 43200000" and u = ex_url and entry = ?old
      and e = ex_down] s1 s2
  have b0: "requests (snd (fetchAwsDocContent ex_down (ex_cached 43200000) ex_url))
        = requests (ex_cached 43200000) @ [ex_url]"
    and b1: "contentCache (snd (fetchAwsDocContent ex_down (ex_cached 43200000) ex_url)) ex_url =
            (case fst (fetchAwsDocContent ex_down (ex_cached 43200000) ex_url) of
               None \<Rightarrow> Some ?old
             | Some c \<Rightarrow> Some \<lparr>entry_content = c,
                 entry_timestamp = clock (snd (fetchAwsDocContent ex_down (ex_cached 43200000) ex_url))\<rparr>)"
    by blast+
  from b0 rq0 have b: "requests (snd (fetchAwsDocContent ex_down (ex_cached 43200000) ex_url)) = [ex_url]"
    by simp
  from b1 down have b': "contentCache (snd (fetchAwsDocContent ex_down (ex_cached 43200000) ex_url)) ex_url
       = Some ?old"
    by simp
  from C2_cache_ttl [where w = ex_world and u = ex_url and e = ex_up and c = c
      and w' = "snd ?r" and d = 1000 and e' = ex_down] r rq d
  have h: "fetchAwsDocContent ex_down ((snd ?r)\<lparr>clock := clock (snd ?r) + 1000\<rparr>) ex_url
       = (Some c, (snd ?r)\<lparr>clock := clock (snd ?r) + 1000\<rparr>)"
    by blast
  have f2': "clock (ex_cached 1000) - 0 < CACHE_TTL" and s2': "\<not> clock (ex_cached 43200000) - 0 < CACHE_TTL"
    using f2 s2 by simp_all
  from f1 f2' a s1 s2' down b b' up rq d h c show ?thesis by simp
qed

text \<open>
  Claim C10. Whatever a lookup fails on, the cache stays as it was: when the lookup
  answers nothing; when \<^verbatim>\<open>fetch\<close> rejects; when the status is outside 200 to 299 (404
  included); when the body cannot be read; when the parser answers nothing. The cache
  changes only after an answer with a status from 200 to 299 and a readable body that
  the parser turned into a record, and then by exactly one entry, the record under the
  address fetched.
\<close>

theorem C10_cache_written_only_on_success:
  "(fst (fetchAwsDocContent e w u) = None \<longrightarrow>
      contentCache (snd (fetchAwsDocContent e w u)) = contentCache w)
   \<and> (network e u = NetworkError \<longrightarrow>
      contentCache (snd (fetchAwsDocContent e w u)) = contentCache w)
   \<and> (network e u = Response st tx bd \<and> \<not> (200 \<le> st \<and> st \<le> 299) \<longrightarrow>
      contentCache (snd (fetchAwsDocContent e w u)) = contentCache w)
   \<and> (network e u = Response st tx None \<longrightarrow>
      contentCache (snd (fetchAwsDocContent e w u)) = contentCache w)
   \<and> (network e u = Response st tx (Some html)
        \<and> parseAwsDocumentationHtml e (clock w + latency e u) html u = None \<longrightarrow>
      contentCache (snd (fetchAwsDocContent e w u)) = contentCache w)
   \<and> (contentCache (snd (fetchAwsDocContent e w u)) \<noteq> contentCache w \<longrightarrow>
        (\<exists>st' tx' html' c. network e u = Response st' tx' (Some html') \<and> 200 \<le> st' \<and> st' \<le> 299
           \<and> parseAwsDocumentationHtml e (clock w + latency e u) html' u = Some c
           \<and> fst (fetchAwsDocContent e w u) = Some c
           \<and> contentCache (snd (fetchAwsDocContent e w u)) =
               (contentCache w)(u \<mapsto> \<lparr>entry_content = c,
                                         entry_timestamp = clock w + latency e u\<rparr>)))"
  using fetch_none_cache [of e w u] fetch_failures_cache(1) [of e u w]
    fetch_failures_cache(2) [where e = e and u = u and st = st and tx = tx and bd = bd and w = w]
    fetch_failures_cache(3) [where e = e and u = u and st = st and tx = tx and w = w]
    fetch_failures_cache(4) [where e = e and u = u and st = st and tx = tx and html = html and w = w]
    fetch_cache_cases [of e w u]
  by blast

theorem C10_cache_written_only_on_success_witness:
  "network ex_down ex_url = NetworkError
   \<and> fst (fetchAwsDocContent ex_down ex_world ex_url) = None
   \<and> contentCache (snd (fetchAwsDocContent ex_down ex_world ex_url)) = contentCache ex_world
   \<and> network ex_single ''x'' = Response 404 ''Not Found'' None
   \<and> \<not> ((200 :: int) \<le> 404 \<and> (404 :: int) \<le> 299)
   \<and> contentCache (snd (fetchAwsDocContent ex_single ex_world ''x'')) = contentCache ex_world
   \<and> network ex_faulty ex_url = Response 200 ''OK'' (Some [])
   \<and> parseAwsDocumentationHtml ex_faulty (clock ex_world + latency ex_faulty ex_url) [] ex_url = None
   \<and> contentCache (snd (fetchAwsDocContent ex_faulty ex_world ex_url)) = contentCache ex_world
   \<and> contentCache (snd (fetchAwsDocContent ex_up ex_world ex_url)) \<noteq> contentCache ex_world
   \<and> (\<exists>c. fst (fetchAwsDocContent ex_up ex_world ex_url) = Some c
          \<and> contentCache (snd (fetchAwsDocContent ex_up ex_world ex_url)) =
              (contentCache ex_world)(ex_url \<mapsto> \<lparr>entry_content = c, entry_timestamp = 1005\<rparr>))"
proof -
  have n1: "network ex_down ex_url = NetworkError"
    by (simp add: ex_down_def ex_env_def)
  have r1: "fst (fetchAwsDocContent ex_down ex_world ex_url) = None"
    by (simp add: fetchAwsDocContent_def ex_down_def ex_env_def ex_world_def Let_def)
  have n2: "network ex_single ''x'' = Response 404 ''Not Found'' None"
    by (simp add: ex_single_def ex_env_def)
  have s2: "\<not> ((200 :: int) \<le> 404 \<and> (404 :: int) \<le> 299)" by simp
  have n3: "network ex_faulty ex_url = Response 200 ''OK'' (Some [])"
    by (simp add: ex_faulty_def)
  have p3: "parseAwsDocumentationHtml ex_faulty (clock ex_world + latency ex_faulty ex_url) [] ex_url
      = None"
    by (simp add: parseAwsDocumentationHtml_def ex_faulty_def)
  have "contentCache (snd (fetchAwsDocContent ex_up ex_world ex_url)) ex_url \<noteq> None"
    by (simp add: fetchAwsDocContent_def parseAwsDocumentationHtml_def ex_up_def ex_env_def
        ex_world_def Let_def)
  moreover have "contentCache ex_world ex_url = None" by (simp add: ex_world_def)
  ultimately have ch: "contentCache (snd (fetchAwsDocContent ex_up ex_world ex_url))
      \<noteq> contentCache ex_world"
    by metis
  have t: "clock ex_world + latency ex_up ex_url = 1005"
    by (simp add: ex_world_def ex_up_def ex_env_def)
  note T = C10_cache_written_only_on_success
  from T [where e = ex_down and w = ex_world and u = ex_url] n1 r1
  have c1: "contentCache (snd (fetchAwsDocContent ex_down ex_world ex_url)) = contentCache ex_world"
    by blast
  from T [where e = ex_single and w = ex_world and u = "''x''" and st = 404
      and tx = "''Not Found''" and bd = None] n2 s2
  have c2: "contentCache (snd (fetchAwsDocContent ex_single ex_world ''x'')) = contentCache ex_world"
    by blast
  from T [where e = ex_faulty and w = ex_world and u = ex_url and st = 200 and tx = "''OK''"
      and html = "[]"] n3 p3
  have c3: "contentCache (snd (fetchAwsDocContent ex_faulty ex_world ex_url)) = contentCache ex_world"
    by blast
  from T [where e = ex_up and w = ex_world and u = ex_url] ch
  have "\<exists>c. fst (fetchAwsDocContent ex_up ex_world ex_url) = Some c
          \<and> contentCache (snd (fetchAwsDocContent ex_up ex_world ex_url)) =
              (contentCache ex_world)(ex_url \<mapsto> \<lparr>entry_content = c,
                  entry_timestamp = clock ex_world + latency ex_up ex_url\<rparr>)"
    by blast
  with t have c4: "\<exists>c. fst (fetchAwsDocContent ex_up ex_world ex_url) = Some c
          \<and> contentCache (snd (fetchAwsDocContent ex_up ex_world ex_url)) =
              (contentCache ex_world)(ex_url \<mapsto> \<lparr>entry_content = c, entry_timestamp = 1005\<rparr>)"
    by simp
  from n1 r1 c1 n2 s2 c2 n3 p3 c3 ch c4 show ?thesis by blast
qed

section \<open>The category of a page\<close>

text \<open>
  Claim C8. A page that the parser turns into a record gets exactly one category, the
  first of the chain that holds, over the lower-cased address and the lower-cased title
  of the record: access-denied, then permissions, then authentication, then
  configuration, and GENERAL when none holds. In particular a page that triggers
  permissions and configuration (and not access-denied, which comes first) is
  PERMISSIONS, and a page that triggers nothing is GENERAL.
\<close>

theorem C8_category_priority:
  assumes "parseAwsDocumentationHtml e now html u = Some c"
  shows "url c = u \<and>
    (let urlLower = toLowerCase (url c); titleLower = toLowerCase (title c);
         ad = (str_includes urlLower ''access-denied'' \<or> str_includes titleLower ''access denied'');
         perm = (str_includes urlLower ''permission'' \<or> str_includes titleLower ''permission'');
         auth = (str_includes urlLower ''auth'' \<or> str_includes titleLower ''auth'');
         conf = (str_includes urlLower ''config'' \<or> str_includes titleLower ''config'')
     in category c =
          (if ad then ACCESS_DENIED else if perm then PERMISSIONS
           else if auth then AUTHENTICATION else if conf then CONFIGURATION else GENERAL)
        \<and> (perm \<and> conf \<and> \<not> ad \<longrightarrow> category c = PERMISSIONS)
        \<and> (\<not> ad \<and> \<not> perm \<and> \<not> auth \<and> \<not> conf \<longrightarrow> category c = GENERAL))"
proof -
  from assms have nr: "\<not> parser_raises e html u"
    by (auto simp: parseAwsDocumentationHtml_def split: if_splits)
  from assms nr have u: "url c = u"
    by (auto simp: parseAwsDocumentationHtml_def Let_def)
  from assms nr have t: "title c =
      (case js_match title_re html of
         None \<Rightarrow> ''AWS Documentation''
       | Some titleMatch \<Rightarrow>
           trim (replace_first '' - Amazon Web Services'' [] (group_text titleMatch 1)))"
    by (auto simp: parseAwsDocumentationHtml_def Let_def)
  from assms nr have "category c =
      (let urlLower = toLowerCase u; titleLower = toLowerCase (title c)
       in if str_includes urlLower ''access-denied'' \<or> str_includes titleLower ''access denied''
          then ACCESS_DENIED
          else if str_includes urlLower ''permission'' \<or> str_includes titleLower ''permission''
          then PERMISSIONS
          else if str_includes urlLower ''auth'' \<or> str_includes titleLower ''auth''
          then AUTHENTICATION
          else if str_includes urlLower ''config'' \<or> str_includes titleLower ''config''
          then CONFIGURATION
          else GENERAL)"
    unfolding t by (auto simp: parseAwsDocumentationHtml_def Let_def)
  with u show ?thesis by (simp add: Let_def)
qed

theorem C8_category_priority_witness:
  "(case parseAwsDocumentationHtml ex_up 0 ex_page ex_url of
      None \<Rightarrow> False
    | Some c \<Rightarrow> title c = ''Fix permission and config issues'' \<and> url c = ex_url
                \<and> category c = PERMISSIONS)
   \<and> (case parseAwsDocumentationHtml ex_up 0 [] ex_url of
      None \<Rightarrow> False
    | Some c \<Rightarrow> title c = ''AWS Documentation'' \<and> category c = GENERAL)"
proof -
  have nr: "\<not> parser_raises ex_up html u" for html u
    by (simp add: ex_up_def ex_env_def)
  obtain c1 where p1: "parseAwsDocumentationHtml ex_up 0 ex_page ex_url = Some c1"
    using nr by (simp add: parseAwsDocumentationHtml_def Let_def)
  obtain c2 where p2: "parseAwsDocumentationHtml ex_up 0 [] ex_url = Some c2"
    using nr by (simp add: parseAwsDocumentationHtml_def Let_def)
  have "(case js_match title_re ex_page of
           None \<Rightarrow> ''AWS Documentation''
         | Some titleMatch \<Rightarrow>
             trim (replace_first '' - Amazon Web Services'' [] (group_text titleMatch 1)))
        = ''Fix permission and config issues''"
    by code_simp
  with p1 nr have t1: "title c1 = ''Fix permission and config issues''"
    by (auto simp: parseAwsDocumentationHtml_def Let_def)
  have "js_match title_re [] = None" by code_simp
  with p2 nr have t2: "title c2 = ''AWS Documentation''"
    by (auto simp: parseAwsDocumentationHtml_def Let_def)
  have k1: "\<not> str_includes (toLowerCase ex_url) ''access-denied''"
    "\<not> str_includes (toLowerCase ex_url) ''permission''"
    "\<not> str_includes (toLowerCase ex_url) ''auth''"
    "\<not> str_includes (toLowerCase ex_url) ''config''"
    by code_simp+
  have k2: "\<not> str_includes (toLowerCase ''Fix permission and config issues'') ''access denied''"
    "str_includes (toLowerCase ''Fix permission and config issues'') ''permission''"
    "str_includes (toLowerCase ''Fix permission and config issues'') ''config''"
    by code_simp+
  have k3: "\<not> str_includes (toLowerCase ''AWS Documentation'') ''access denied''"
    "\<not> str_includes (toLowerCase ''AWS Documentation'') ''permission''"
    "\<not> str_includes (toLowerCase ''AWS Documentation'') ''auth''"
    "\<not> str_includes (toLowerCase ''AWS Documentation'') ''config''"
    by code_simp+
  from C8_category_priority [OF p1] t1 k1 k2
  have a: "url c1 = ex_url \<and> category c1 = PERMISSIONS"
    by (simp add: Let_def)
  from C8_category_priority [OF p2] t2 k1 k3
  have b: "category c2 = GENERAL"
    by (simp add: Let_def)
  from p1 p2 t1 t2 a b show ?thesis by simp
qed

section \<open>Soundness of the matcher\<close>

lemma post_nil: "post Q (Star a) s c [] s c" "post Q (Lazy a) s c [] s c"
  by (simp_all add: post_def)

lemma post_star:
  assumes "post Q a s c u1 s1 c1" and "post Q (Star a) s1 c1 u2 s2 c2"
  shows "post Q (Star a) s c (u1 @ u2) s2 c2"
  using assms by (auto simp: post_def)

lemma post_lazy:
  assumes "post Q a s c u1 s1 c1" and "post Q (Lazy a) s1 c1 u2 s2 c2"
  shows "post Q (Lazy a) s c (u1 @ u2) s2 c2"
  using assms by (auto simp: post_def)

lemma post_seq:
  assumes "post Q a s c u1 s1 c1" and "post Q b s1 c1 u2 s2 c2"
  shows "post Q (Seq a b) s c (u1 @ u2) s2 c2"
  using assms by (auto simp: post_def)

lemma post_alt:
  "post Q a s c u s' c' \<Longrightarrow> post Q (Alt a b) s c u s' c'"
  "post Q b s c u s' c' \<Longrightarrow> post Q (Alt a b) s c u s' c'"
  by (auto simp: post_def)

lemma post_grp:
  assumes "post Q a s c u s' c'"
  shows "post Q (Grp n a) s c u s' (c'(n \<mapsto> take (length s - length s') s))"
proof -
  from assms have "take (length s - length s') s = u" by (simp add: post_def)
  with assms show ?thesis by (auto simp: post_def good_def)
qed

lemma post_ahead:
  assumes "post Q a s c u s' c'"
  shows "post Q (Ahead a) s c [] s c'"
  using assms by (auto simp: post_def)

lemma run_sound:
  "run r k s c = Some res \<Longrightarrow> \<exists>u s' c'. k s' c' = Some res \<and> post Q r s c u s' c'"
proof (induction r k s c arbitrary: res rule: run.induct)
  case (1 p k s c)
  then obtain x xs where s: "s = x # xs" and px: "p x" and k: "k xs c = Some res"
    by (cases s) (auto split: if_splits)
  have "post Q (Sym p) s c [x] xs c"
    using s px by (simp add: post_def)
  with k show ?case by blast
next
  case (2 k s c)
  then have "k s c = Some res" by simp
  moreover have "post Q Eps s c [] s c" by (simp add: post_def)
  ultimately show ?case by blast
next
  case (3 a b k s c)
  from "3.prems" have "run a (run b k) s c = Some res" by simp
  from "3.IH"(2) [OF this] obtain u1 s1 c1 where
    b: "run b k s1 c1 = Some res" and p1: "post Q a s c u1 s1 c1" by blast
  from "3.IH"(1) [OF b] obtain u2 s2 c2 where
    k: "k s2 c2 = Some res" and p2: "post Q b s1 c1 u2 s2 c2" by blast
  from k post_seq [OF p1 p2] show ?case by blast
next
  case (4 a b k s c)
  show ?case
  proof (cases "run a k s c")
    case None
    with "4.prems" have "run b k s c = Some res" by simp
    from "4.IH"(2) [OF None this] obtain u s' c' where
      "k s' c' = Some res" "post Q b s c u s' c'" by blast
    then show ?thesis using post_alt(2) by blast
  next
    case (Some r)
    with "4.prems" have "run a k s c = Some res" by simp
    from "4.IH"(1) [OF this] obtain u s' c' where
      "k s' c' = Some res" "post Q a s c u s' c'" by blast
    then show ?thesis using post_alt(1) by blast
  qed
next
  case (5 a k s c)
  let ?k = "\<lambda>s' c'. if length s' < length s then run (Star a) k s' c' else None"
  show ?case
  proof (cases "run a ?k s c")
    case None
    with "5.prems" have "k s c = Some res" by simp
    with post_nil(1) show ?thesis by blast
  next
    case (Some r)
    with "5.prems" have "run a ?k s c = Some res" by simp
    from "5.IH"(2) [OF this] obtain u1 s1 c1 where
      k1: "?k s1 c1 = Some res" and p1: "post Q a s c u1 s1 c1" by blast
    from k1 have len: "length s1 < length s" and st: "run (Star a) k s1 c1 = Some res"
      by (auto split: if_splits)
    from "5.IH"(1) [OF len st] obtain u2 s2 c2 where
      k: "k s2 c2 = Some res" and p2: "post Q (Star a) s1 c1 u2 s2 c2" by blast
    from k post_star [OF p1 p2] show ?thesis by blast
  qed
next
  case (6 a k s c)
  let ?k = "\<lambda>s' c'. if length s' < length s then run (Lazy a) k s' c' else None"
  show ?case
  proof (cases "k s c")
    case (Some r)
    with "6.prems" have "k s c = Some res" by simp
    with post_nil(2) show ?thesis by blast
  next
    case None
    with "6.prems" have "run a ?k s c = Some res" by simp
    from "6.IH"(2) [OF None this] obtain u1 s1 c1 where
      k1: "?k s1 c1 = Some res" and p1: "post Q a s c u1 s1 c1" by blast
    from k1 have len: "length s1 < length s" and st: "run (Lazy a) k s1 c1 = Some res"
      by (auto split: if_splits)
    from "6.IH"(1) [OF None len st] obtain u2 s2 c2 where
      k: "k s2 c2 = Some res" and p2: "post Q (Lazy a) s1 c1 u2 s2 c2" by blast
    from k post_lazy [OF p1 p2] show ?thesis by blast
  qed
next
  case (7 n a k s c)
  let ?k = "\<lambda>s' c'. k s' (c'(n \<mapsto> take (length s - length s') s))"
  from "7.prems" have "run a ?k s c = Some res" by simp
  from "7.IH" [OF this] obtain u s' c' where
    k: "?k s' c' = Some res" and p: "post Q a s c u s' c'" by blast
  from k post_grp [OF p] show ?case by blast
next
  case (8 a k s c)
  from "8.prems" obtain s1 c1 where
    a: "run a (\<lambda>s' c'. Some (s', c')) s c = Some (s1, c1)" and k: "k s c1 = Some res"
    by (auto split: option.splits)
  from "8.IH" [OF a] obtain u where "post Q a s c u s1 c1" by blast
  from k post_ahead [OF this] show ?case by blast
next
  case (9 k s c)
  then have "k s c = Some res" by (simp split: if_splits)
  moreover have "post Q EndOfInput s c [] s c" by (simp add: post_def)
  ultimately show ?case by blast
qed


lemma exec_at_sound:
  assumes "exec_at r s = Some (n, c)"
  shows "\<exists>s'. post Q r s Map.empty (take n s) s' c"
proof -
  from assms obtain s1 where r: "run r (\<lambda>s' c'. Some (s', c')) s Map.empty = Some (s1, c)"
    and n: "n = length s - length s1"
    by (auto simp: exec_at_def split: option.splits)
  from run_sound [OF r, of Q] obtain u where p: "post Q r s Map.empty u s1 c" by auto
  then have "take n s = u" using n by (simp add: post_def)
  with p show ?thesis by blast
qed

lemma search_sound:
  "search r i s = Some (j, n, c) \<Longrightarrow> i \<le> j \<and> exec_at r (drop (j - i) s) = Some (n, c)"
proof (induction s arbitrary: i)
  case Nil
  then show ?case by (auto split: option.splits)
next
  case (Cons x xs)
  show ?case
  proof (cases "exec_at r (x # xs)")
    case None
    with Cons.prems have "search r (Suc i) xs = Some (j, n, c)" by simp
    from Cons.IH [OF this] have "Suc i \<le> j" and "exec_at r (drop (j - Suc i) xs) = Some (n, c)"
      by simp_all
    moreover from \<open>Suc i \<le> j\<close> have "j - i = Suc (j - Suc i)" by simp
    ultimately show ?thesis by simp
  next
    case (Some a)
    with Cons.prems show ?thesis by (cases a) simp
  qed
qed

lemma search_hit:
  assumes "search r 0 s = Some (i, n, c)"
  shows "is_hit Q r \<lparr>whole = take n (drop i s), groups = c\<rparr>"
proof -
  from search_sound [OF assms] have "exec_at r (drop i s) = Some (n, c)" by simp
  from exec_at_sound [OF this, of Q] obtain s' where
    p: "post Q r (drop i s) Map.empty (take n (drop i s)) s' c" by blast
  then have "drop i s = take n (drop i s) @ s'" by (simp add: post_def)
  with p have "post Q r (take n (drop i s) @ s') Map.empty (take n (drop i s)) s' c" by simp
  then show ?thesis by (auto simp: is_hit_def)
qed

lemma scan_hits: "h \<in> set (hits (scan r s)) \<Longrightarrow> is_hit Q r h"
proof (induction r s rule: scan.induct)
  case (1 r s)
  show ?case
  proof (cases "search r 0 s")
    case None
    with "1.prems" show ?thesis by (simp add: scan.simps)
  next
    case (Some a)
    then obtain i n c where a: "search r 0 s = Some (i, n, c)" by (cases a) auto
    let ?h = "\<lparr>whole = take n (drop i s), groups = c\<rparr>"
    let ?rest = "(if n = 0 then (case drop i s of [] \<Rightarrow> [] | x # xs \<Rightarrow> Gap [x] # scan r xs)
           else if i + n \<le> length s then scan r (drop (i + n) s)
           else [])"
    have sc: "scan r s = Gap (take i s) # Hit ?h # ?rest"
      using a by (subst scan.simps) simp
    from "1.prems" sc have "h = ?h \<or> h \<in> set (hits ?rest)" by simp
    then show ?thesis
    proof
      assume "h = ?h"
      with search_hit [OF a] show ?thesis by simp
    next
      assume r: "h \<in> set (hits ?rest)"
      show ?thesis
      proof (cases "n = 0")
        case True
        with r obtain x xs where d: "drop i s = x # xs" and "h \<in> set (hits (scan r xs))"
          by (cases "drop i s") auto
        with "1.IH"(1) [OF a refl refl True d] show ?thesis by simp
      next
        case False
        with r have le: "i + n \<le> length s" and "h \<in> set (hits (scan r (drop (i + n) s)))"
          by (auto split: if_splits)
        with "1.IH"(2) [OF a refl refl False le] show ?thesis by simp
      qed
    qed
  qed
qed

lemma matchAll_hits: "h \<in> set (matchAll r s) \<Longrightarrow> is_hit Q r h"
  by (simp add: matchAll_def scan_hits)




lemma js_match_hit: "js_match r s = Some h \<Longrightarrow> is_hit Q r h"
  by (auto simp: js_match_def split: option.splits dest: search_hit)

lemma search_bound: "search r i s = Some (j, n, c) \<Longrightarrow> j \<le> i + length s"
proof (induction s arbitrary: i)
  case Nil
  then show ?case by (auto split: option.splits)
next
  case (Cons x xs)
  show ?case
  proof (cases "exec_at r (x # xs)")
    case None
    with Cons.prems have "search r (Suc i) xs = Some (j, n, c)" by simp
    from Cons.IH [OF this] show ?thesis by simp
  next
    case (Some a)
    with Cons.prems show ?thesis by (cases a) simp
  qed
qed

text \<open>A match lies within the string, so the last branch of \<open>scan\<close> is never taken.\<close>

lemma search_within:
  assumes "search r 0 s = Some (i, n, c)"
  shows "i + n \<le> length s"
proof -
  from search_bound [OF assms] have i: "i \<le> length s" by simp
  from search_sound [OF assms] have "exec_at r (drop i s) = Some (n, c)" by simp
  then have "n \<le> length (drop i s)"
    by (auto simp: exec_at_def split: option.splits)
  with i show ?thesis by simp
qed

section \<open>The error patterns\<close>

lemma space_cases:
  assumes "js_space x"
  obtains "x = CHR 0x09" | "x = CHR 0x0A" | "x = CHR 0x0B" | "x = CHR 0x0C"
    | "x = CHR 0x0D" | "x = CHR 0x20" | "x = CHR 0xA0"
  using assms unfolding js_space_def by auto

lemma space_plain:
  assumes "js_space x"
  shows "canon x = x \<and> toLowerChar x = x \<and> \<not> ascii_upper x \<and> \<not> ascii_lower x
    \<and> \<not> ascii_digit x \<and> x \<noteq> CHR ''_'' \<and> x \<noteq> CHR '':''"
  using assms
  by (cases rule: space_cases)
     (simp_all add: canon_def toLowerChar_def case_pairs_def
        ascii_upper_def ascii_lower_def ascii_digit_def)


lemma chars_ok_cls_i:
  assumes "\<And>x. js_space x \<Longrightarrow> \<not> p x"
  shows "chars_ok not_space (cls_i p)"
proof -
  have "\<not> js_space x" if "p x \<or> p (canon x) \<or> p (toLowerChar x)" for x
  proof
    assume sp: "js_space x"
    with space_plain [OF sp] that have "p x" by simp
    with assms [OF sp] show False by simp
  qed
  then show ?thesis by (simp add: cls_i_def not_space_def)
qed

lemma chars_ok_chr_i:
  assumes "\<not> js_space (canon c)" and "\<not> js_space (toLowerChar (canon c))"
  shows "chars_ok not_space (chr_i c)"
  using assms by (auto simp: chr_i_def not_space_def)

lemma canon_not_space:
  assumes "\<not> js_space c"
  shows "\<not> js_space (canon c)"
proof (cases "map_of (map (\<lambda>(u, l). (l, u)) case_pairs) c")
  case None
  with assms show ?thesis by (simp add: canon_def)
next
  case (Some u)
  then have "(c, u) \<in> set (map (\<lambda>(u, l). (l, u)) case_pairs)" by (rule map_of_SomeD)
  then have "u \<in> set (map fst case_pairs)" by force
  moreover have "\<forall>x\<in>set (map fst case_pairs). \<not> js_space x"
    by (simp add: case_pairs_def js_space_def)
  ultimately have "\<not> js_space u" by blast
  with Some show ?thesis by (simp add: canon_def)
qed

lemma lower_not_space:
  assumes "\<not> js_space c"
  shows "\<not> js_space (toLowerChar c)"
proof (cases "map_of case_pairs c")
  case None
  with assms show ?thesis by (simp add: toLowerChar_def)
next
  case (Some l)
  then have "(c, l) \<in> set case_pairs" by (rule map_of_SomeD)
  then have "l \<in> set (map snd case_pairs)" by force
  moreover have "\<forall>x\<in>set (map snd case_pairs). \<not> js_space x"
    by (simp add: case_pairs_def js_space_def)
  ultimately have "\<not> js_space l" by blast
  with Some show ?thesis by (simp add: toLowerChar_def)
qed

lemma chars_ok_seqs: "chars_ok Q (seqs rs) = (\<forall>r\<in>set rs. chars_ok Q r)"
  by (induction rs) (simp_all add: seqs_def)

lemma chars_ok_alts: "chars_ok Q (alts r rs) = (chars_ok Q r \<and> (\<forall>a\<in>set rs. chars_ok Q a))"
  by (induction rs arbitrary: r) (auto simp: alts_def)

lemma chars_ok_lit_i: "\<forall>c\<in>set s. \<not> js_space c \<Longrightarrow> chars_ok not_space (lit_i s)"
  by (simp add: lit_i_def chars_ok_seqs chars_ok_chr_i canon_not_space lower_not_space)


lemma non_null_syms [simp]:
  "non_null (cls_i p)" "non_null (chr_i c)" "non_null (chr c)"
  by (simp_all add: cls_i_def chr_i_def chr_def)

lemma keeps_syms [simp]:
  "keeps n (cls_i p)" "keeps n (chr_i c)" "keeps n (chr c)"
  by (simp_all add: cls_i_def chr_i_def chr_def)

lemma keeps_seqs: "keeps n (seqs rs) = (\<forall>r\<in>set rs. keeps n r)"
  by (induction rs) (simp_all add: seqs_def)

lemma keeps_alts: "keeps n (alts r rs) = (keeps n r \<and> (\<forall>a\<in>set rs. keeps n a))"
  by (induction rs arbitrary: r) (auto simp: alts_def)

lemma keeps_lit_i [simp]: "keeps n (lit_i s)"
  by (simp add: lit_i_def keeps_seqs)

lemma non_null_alts: "non_null (alts r rs) = (non_null r \<and> (\<forall>a\<in>set rs. non_null a))"
  by (induction rs arbitrary: r) (auto simp: alts_def)

lemma non_null_lit_i: "s \<noteq> [] \<Longrightarrow> non_null (lit_i s)"
  by (cases s) (simp_all add: lit_i_def seqs_def)

lemma cls_facts:
  "chars_ok not_space (cls_i ascii_upper)"
  "chars_ok not_space (cls_i word_chr)"
  "chars_ok not_space (cls_i (\<lambda>x. ascii_upper x \<or> x = CHR ''_''))"
  "chars_ok not_space (cls_i (\<lambda>x. ascii_upper x \<or> ascii_digit x \<or> x = CHR ''_''))"
  "chars_ok not_space (Sym ascii_digit)"
  using space_plain by (auto intro!: chars_ok_cls_i simp: word_chr_def not_space_def)

lemma digit_not_space: "ascii_digit x \<Longrightarrow> not_space x"
  using space_plain by (auto simp: not_space_def)

lemma error_name_sets: "sets_grp 1 not_space error_name_re"
  by (simp add: error_name_re_def seqs_def cls_facts)

lemma http_status_sets: "sets_grp 1 not_space http_status_re"
  by (simp add: http_status_re_def seqs_def digit_not_space Plus_def)

lemma error_const_sets: "sets_grp 1 not_space error_const_re"
  by (simp add: error_const_re_def seqs_def cls_facts chars_ok_lit_i js_space_def)

lemma aws_error_plain:
  "keeps 1 aws_error_re" "non_null aws_error_re" "chars_ok not_space aws_error_re"
  by (simp_all add: aws_error_re_def keeps_alts non_null_alts non_null_lit_i chars_ok_alts
      chars_ok_lit_i js_space_def)


lemma hit_error_ok:
  assumes "p \<in> set errorPatterns" and "h \<in> set (matchAll p text)"
  shows "match_error h \<noteq> [] \<and> (\<forall>x\<in>set (match_error h). \<not> js_space x)"
proof -
  from matchAll_hits [OF assms(2), of not_space] obtain s' where
    p: "post not_space p (whole h @ s') Map.empty (whole h) s' (groups h)"
    by (auto simp: is_hit_def)
  from assms(1) consider "sets_grp 1 not_space p" | "p = aws_error_re"
    using error_name_sets http_status_sets error_const_sets by (auto simp: errorPatterns_def)
  then show ?thesis
  proof cases
    case 1
    with p have "good not_space (groups h 1)" by (simp add: post_def)
    then show ?thesis
      by (auto simp: good_def match_error_def not_space_def split: option.splits)
  next
    case 2
    with p aws_error_plain have "groups h 1 = None" and "whole h \<noteq> []"
      and "\<forall>x\<in>set (whole h). not_space x"
      by (simp_all add: post_def)
    then show ?thesis by (simp add: match_error_def not_space_def)
  qed
qed

lemma trim_id:
  assumes "\<forall>x\<in>set s. \<not> js_space x"
  shows "trim s = s"
proof -
  have d: "dropWhile js_space t = t" if "\<forall>x\<in>set t. \<not> js_space x" for t
    using that by (cases t) simp_all
  from assms have "dropWhile js_space s = s" by (rule d)
  moreover from assms have "dropWhile js_space (rev s) = rev s" by (intro d) simp
  ultimately show ?thesis by (simp add: trim_def)
qed

lemma push_error_plain:
  assumes "\<forall>h\<in>set ms. match_error h \<noteq> [] \<and> (\<forall>x\<in>set (match_error h). \<not> js_space x)"
  shows "foldl push_error acc ms = foldl add_new acc (map match_error ms)"
  using assms
proof (induction ms arbitrary: acc)
  case Nil
  then show ?case by simp
next
  case (Cons h hs)
  then have "push_error acc h = add_new acc (match_error h)"
    by (simp add: push_error_def add_new_def Let_def trim_id)
  with Cons show ?case by simp
qed

lemma add_new_first_seen: "foldl add_new [] xs = rev (remdups (rev xs))"
proof (induction xs rule: rev_induct)
  case Nil
  then show ?case by simp
next
  case (snoc x xs)
  have "set (rev (remdups (rev xs))) = set xs" by simp
  with snoc show ?case by (simp add: add_new_def)
qed

lemma extractErrors_candidates:
  "extractErrorsFromText text =
     rev (remdups (rev (map match_error (concat (map (\<lambda>p. matchAll p text) errorPatterns)))))"
proof -
  have "foldl (\<lambda>errors pattern. foldl push_error errors (matchAll pattern text)) acc ps =
        foldl push_error acc (concat (map (\<lambda>p. matchAll p text) ps))" for acc ps
    by (induction ps arbitrary: acc) simp_all
  then have "extractErrorsFromText text =
        foldl push_error [] (concat (map (\<lambda>p. matchAll p text) errorPatterns))"
    by (simp add: extractErrorsFromText_def)
  also have "\<dots> = foldl add_new [] (map match_error (concat (map (\<lambda>p. matchAll p text) errorPatterns)))"
    by (rule push_error_plain) (auto dest: hit_error_ok)
  finally show ?thesis by (simp add: add_new_first_seen)
qed


section \<open>The groups of the expressions\<close>

text \<open>
  The groups that the source reads without a test are set in every match, so
  \<open>group_text\<close> is the text of the group.
\<close>

lemma hit_group_set:
  assumes "is_hit Q r h" and "always_sets n r"
  shows "groups h n = Some (group_text h n)"
proof -
  from assms have "groups h n \<noteq> None" by (auto simp: is_hit_def post_def)
  then show ?thesis by (auto simp: group_text_def)
qed

lemma keeps_plain [simp]:
  "keeps n (not_chr c)" "keeps n any_chr" "keeps n (one_of cs)" "keeps n (lit s)"
  by (simp_all add: not_chr_def any_chr_def one_of_def lit_def keeps_seqs)

lemma source_groups_set:
  "always_sets 1 ol_re" "always_sets 1 li_re" "always_sets 1 procedure_re"
  "always_sets 1 code_re" "always_sets 1 pre_re" "always_sets 2 pre_lang_re"
  "always_sets 1 title_re" "always_sets 1 (meta_re name)" "always_sets 1 service_re"
  "always_sets 1 main_content_re" "always_sets 1 heading_re" "always_sets 2 heading_re"
  "always_sets 1 (section_re lv hd_text)"
  by (simp_all add: ol_re_def li_re_def procedure_re_def code_re_def pre_re_def pre_lang_re_def
      title_re_def meta_re_def service_re_def main_content_re_def heading_re_def section_re_def
      seqs_def Plus_def Opt_def)

section \<open>The errors of a text\<close>

lemma distinct_count_le_1: "distinct xs \<Longrightarrow> count_list xs e \<le> 1"
  by (induction xs) auto

text \<open>
  Claim C7. The list that \<open>extractErrorsFromText\<close> returns has no string twice, whatever
  the text (so repeating a phrase in the text adds nothing twice). It is the list of the
  candidates in the order of the four patterns and, within a pattern, of the matches,
  each candidate kept at its first occurrence only: \<open>rev (remdups (rev xs))\<close> keeps the
  first occurrence of each element of \<open>xs\<close>, in the order of \<open>xs\<close>. A candidate is the
  first group of a match, or the whole match when the pattern has no group; none has
  white space, so trimming changes none. On the text of the claim the list is the
  single string AccessDenied.
\<close>

theorem C7_errors_first_seen_distinct:
  "distinct (extractErrorsFromText text)
   \<and> count_list (extractErrorsFromText text) e \<le> 1
   \<and> extractErrorsFromText text =
       rev (remdups (rev (map match_error (concat (map (\<lambda>p. matchAll p text) errorPatterns)))))
   \<and> extractErrorsFromText ''Error: AccessDenied while calling PutObject'' = [''AccessDenied'']
   \<and> ''AccessDenied'' \<in> set (extractErrorsFromText ''Error: AccessDenied while calling PutObject'')
   \<and> distinct (extractErrorsFromText
         (''Error: AccessDenied while calling PutObject''
          @ '' Error: AccessDenied while calling PutObject''))"
proof -
  have d: "distinct (extractErrorsFromText t)" for t
    by (simp add: extractErrors_candidates)
  have c: "count_list (extractErrorsFromText text) e \<le> 1"
    using d [of "text"] by (rule distinct_count_le_1)
  have ex: "extractErrorsFromText ''Error: AccessDenied while calling PutObject'' = [''AccessDenied'']"
    by code_simp
  from d c ex extractErrors_candidates [of "text"] show ?thesis by simp
qed

section \<open>The troubleshooting steps of the lists\<close>







section \<open>The code examples\<close>









end
